theory Spec2Isabelle
  imports Complex_Main "HOL-Library.Word"
begin

unbundle bit_operations_syntax

section \<open>Arcane model loading (Graphics/Mesh/Model.cpp)\<close>

subsection \<open>Floating-point values and their comparisons\<close>

text \<open>
  The C++ \<^verbatim>\<open>float\<close> values of Model.cpp are only copied and compared, never computed
  with. A value is a number, an infinity or a NaN; \<open>fless\<close> is the C++ operator \<^verbatim>\<open><\<close>
  (false as soon as one side is a NaN), and \<^verbatim>\<open>a > b\<close> is \<open>fless b a\<close>. The two zeros
  of IEEE 754 compare equal and are one value here.
\<close>

datatype cfloat = NegInf | Fin real | PosInf | NaN

fun fless :: "cfloat \<Rightarrow> cfloat \<Rightarrow> bool" where
  "fless NaN _ = False"
| "fless _ NaN = False"
| "fless _ NegInf = False"
| "fless NegInf _ = True"
| "fless PosInf _ = False"
| "fless (Fin a) (Fin b) = (a < b)"
| "fless (Fin a) PosInf = True"

text \<open>The C++ operator \<^verbatim>\<open>>=\<close>, used to state claims about weights of at least 1.0.\<close>

definition fge :: "cfloat \<Rightarrow> cfloat \<Rightarrow> bool" where
  "fge a b = (a \<noteq> NaN \<and> b \<noteq> NaN \<and> \<not> fless a b)"

subsection \<open>Diagnostics and requests sent to collaborators\<close>

text \<open>
  \<^verbatim>\<open>TextureSettings\<close> is declared outside Model.cpp; the only field Model.cpp sets
  is \<^verbatim>\<open>IsSRGB\<close>.
\<close>

record TextureSettings =
  IsSRGB :: bool

text \<open>
  Every call of \<^verbatim>\<open>ARC_LOG_ERROR\<close>, \<^verbatim>\<open>ARC_LOG_WARN\<close> and
  \<^verbatim>\<open>AssetManager::Load2DTextureAsync\<close> is recorded as an event, in program order.
  \<open>WarnReplace\<close> carries the arguments of the warning of line 193 (capacity, vertex id,
  replaced bone and weight, new bone and weight), \<open>WarnDrop\<close> those of line 201,
  \<open>WarnTextureCount\<close> is the warning of line 241.
\<close>

datatype event =
    LogError string
  | WarnReplace nat nat int cfloat int cfloat
  | WarnDrop nat nat int cfloat
  | WarnTextureCount
  | LoadTexture string TextureSettings

subsection \<open>Per-vertex bone slots (ProcessMesh, lines 162--203)\<close>

text \<open>
  \<^verbatim>\<open>VertexBoneData\<close> holds the two arrays \<^verbatim>\<open>BoneIDs[MaxBonesPerVertex]\<close> and
  \<^verbatim>\<open>Weights[MaxBonesPerVertex]\<close>. The constant \<^verbatim>\<open>MaxBonesPerVertex\<close> is declared
  in a header that is not part of the sources, so it is the parameter \<open>M\<close> of every
  function below; the arrays are lists of length \<open>M\<close>.
\<close>

record VertexBoneData =
  BoneIDs :: "int list"
  Weights :: "cfloat list"

text \<open>
  Lines 163--174: the scan for an unused slot. It writes the first slot whose bone id
  is \<open>-1\<close> and stops; the result is \<^verbatim>\<open>foundSlot\<close> and the vertex's data.
\<close>

function fill_open_slot ::
  "nat \<Rightarrow> int \<Rightarrow> cfloat \<Rightarrow> VertexBoneData \<Rightarrow> nat \<Rightarrow> bool \<times> VertexBoneData" where
  "fill_open_slot M boneID currentWeight v i =
     (if i < M then
        (if BoneIDs v ! i = -1
         then (True, v\<lparr>BoneIDs := (BoneIDs v)[i := boneID],
                        Weights := (Weights v)[i := currentWeight]\<rparr>)
         else fill_open_slot M boneID currentWeight v (Suc i))
      else (False, v))"
  by pat_completeness auto
termination
  by (relation "measure (\<lambda>(M, boneID, currentWeight, v, i). M - i)") auto

text \<open>
  Lines 179--188: the scan for the lowest weight, carrying \<^verbatim>\<open>lowestWeight\<close> and
  \<^verbatim>\<open>smallestWeightIndex\<close> (an \<^verbatim>\<open>int\<close>, \<open>-1\<close> while nothing was selected).
\<close>

function find_lowest :: "nat \<Rightarrow> cfloat list \<Rightarrow> nat \<Rightarrow> cfloat \<times> int \<Rightarrow> cfloat \<times> int" where
  "find_lowest M ws i (lowestWeight, smallestWeightIndex) =
     (if i < M then
        (if fless (ws ! i) lowestWeight
         then find_lowest M ws (Suc i) (ws ! i, int i)
         else find_lowest M ws (Suc i) (lowestWeight, smallestWeightIndex))
      else (lowestWeight, smallestWeightIndex))"
  by pat_completeness auto
termination
  by (relation "measure (\<lambda>(M, ws, i, acc). M - i)") auto

text \<open>
  Lines 162--203, the body of the loop over a bone's weights for one vertex: fill an
  unused slot, or else replace the slot found by \<open>find_lowest\<close> when the new weight is
  greater than the lowest weight and a slot was selected. The result is the warnings
  logged and the vertex's data.
\<close>

definition AssignBoneInfluence ::
  "nat \<Rightarrow> nat \<Rightarrow> int \<Rightarrow> cfloat \<Rightarrow> VertexBoneData \<Rightarrow> event list \<times> VertexBoneData" where
  "AssignBoneInfluence M vertexID boneID currentWeight v =
     (case fill_open_slot M boneID currentWeight v 0 of
        (True, v') \<Rightarrow> ([], v')
      | (False, v') \<Rightarrow>
          (case find_lowest M (Weights v') 0 (Fin 1, -1) of
             (lowestWeight, smallestWeightIndex) \<Rightarrow>
               if fless lowestWeight currentWeight \<and> smallestWeightIndex \<noteq> -1
               then ([WarnReplace M vertexID
                        (BoneIDs v' ! nat smallestWeightIndex)
                        (Weights v' ! nat smallestWeightIndex) boneID currentWeight],
                     v'\<lparr>BoneIDs := (BoneIDs v')[nat smallestWeightIndex := boneID],
                        Weights := (Weights v')[nat smallestWeightIndex := currentWeight]\<rparr>)
               else ([WarnDrop M vertexID boneID currentWeight], v')))"

subsection \<open>Failures\<close>

text \<open>
  Model.cpp stops in four ways: it reads through a null pointer or past the end of an
  array (undefined behaviour in C++; the model stops there), an \<^verbatim>\<open>ARC_ASSERT\<close> fails,
  or \<^verbatim>\<open>std::string::substr\<close> throws \<^verbatim>\<open>std::out_of_range\<close>.
\<close>

datatype error = NullPointer | OutOfBounds | AssertionFailed string | OutOfRange

definition and_then :: "error + 'a \<Rightarrow> ('a \<Rightarrow> error + 'b) \<Rightarrow> error + 'b" where
  "and_then r f = (case r of Inl e \<Rightarrow> Inl e | Inr a \<Rightarrow> f a)"

text \<open>Reading element \<open>i\<close> of an array given by a pointer, \<open>None\<close> being the null pointer.\<close>

definition read_at :: "'a list option \<Rightarrow> nat \<Rightarrow> error + 'a" where
  "read_at arr i =
     (case arr of
        None \<Rightarrow> Inl NullPointer
      | Some xs \<Rightarrow> if i < length xs then Inr (xs ! i) else Inl OutOfBounds)"

subsection \<open>The importer's scene, as Model.cpp reads it\<close>

text \<open>
  The Assimp structures, with the fields Model.cpp reads. An array that Assimp gives as
  a count and a pointer of its own (\<^verbatim>\<open>mNumBones\<close> and \<^verbatim>\<open>mBones\<close>, \<^verbatim>\<open>mNumFaces\<close> and
  \<^verbatim>\<open>mFaces\<close>, \<^verbatim>\<open>mNumIndices\<close> and \<^verbatim>\<open>mIndices\<close>, \<^verbatim>\<open>mNumWeights\<close> and
  \<^verbatim>\<open>mWeights\<close>, \<^verbatim>\<open>mNumMeshes\<close> and \<^verbatim>\<open>mMeshes\<close>, \<^verbatim>\<open>mNumChildren\<close> and
  \<^verbatim>\<open>mChildren\<close>) is a list, the count being its length. The per-vertex arrays of a mesh
  share the one count \<^verbatim>\<open>mNumVertices\<close> and each of them may be a null pointer, so they
  are optional lists beside the count; \<open>mTextureCoords0\<close> is \<^verbatim>\<open>mTextureCoords[0]\<close>.
  Vertex ids, indices and counts are \<^verbatim>\<open>unsigned int\<close> in Assimp and natural numbers
  here; Model.cpp converts a vertex id and a weight count to \<^verbatim>\<open>int\<close>, which changes
  nothing below \<open>2^31\<close>. An \<^verbatim>\<open>aiString\<close> is its characters; \<open>C_Str\<close> is the C string
  Model.cpp takes from it, which ends at the first NUL character.
\<close>

type_synonym aiVector3D = "cfloat \<times> cfloat \<times> cfloat"
type_synonym vec3 = "cfloat \<times> cfloat \<times> cfloat"
type_synonym vec2 = "cfloat \<times> cfloat"
type_synonym aiMatrix4x4 = "cfloat list"
type_synonym mat4 = "cfloat list"

definition C_Str :: "string \<Rightarrow> string" where
  "C_Str s = takeWhile (\<lambda>c. c \<noteq> CHR 0x00) s"

record aiVertexWeight =
  mVertexId :: nat
  mWeight :: cfloat

record aiBone =
  mName :: string
  mOffsetMatrix :: aiMatrix4x4
  mWeights :: "aiVertexWeight list"

record aiFace =
  mIndices :: "nat list"

record aiMesh =
  mNumVertices :: nat
  mVertices :: "aiVector3D list option"
  mNormals :: "aiVector3D list option"
  mTangents :: "aiVector3D list option"
  mBitangents :: "aiVector3D list option"
  mTextureCoords0 :: "aiVector3D list option"
  mBones :: "aiBone list"
  mFaces :: "aiFace list"
  mMaterialIndex :: nat

datatype aiTextureType =
    aiTextureType_NONE
  | aiTextureType_DIFFUSE
  | aiTextureType_SPECULAR
  | aiTextureType_AMBIENT
  | aiTextureType_EMISSIVE
  | aiTextureType_HEIGHT
  | aiTextureType_NORMALS
  | aiTextureType_SHININESS
  | aiTextureType_OPACITY
  | aiTextureType_DISPLACEMENT
  | aiTextureType_LIGHTMAP
  | aiTextureType_REFLECTION
  | aiTextureType_UNKNOWN

text \<open>
  A material is read through \<^verbatim>\<open>GetTextureCount(type)\<close> and \<^verbatim>\<open>GetTexture(type, 0, &str)\<close>
  only: it is the list of texture paths it holds for each type, in the order of their
  indices.
\<close>

record aiMaterial =
  textures :: "aiTextureType \<Rightarrow> string list"

definition GetTextureCount :: "aiMaterial \<Rightarrow> aiTextureType \<Rightarrow> nat" where
  "GetTextureCount mat type = length (textures mat type)"

definition GetTexture :: "aiMaterial \<Rightarrow> aiTextureType \<Rightarrow> nat \<Rightarrow> string" where
  "GetTexture mat type k = textures mat type ! k"

datatype aiNode =
  aiNode (mTransformation: aiMatrix4x4) (node_mMeshes: "nat list") (mChildren: "aiNode list")

record aiScene =
  mFlags :: "32 word"
  mRootNode :: "aiNode option"
  mMeshes :: "aiMesh list"
  mMaterials :: "aiMaterial list"

definition AI_SCENE_FLAGS_INCOMPLETE :: "32 word" where
  "AI_SCENE_FLAGS_INCOMPLETE = 0x1"

subsection \<open>The model's own data\<close>

text \<open>
  A texture handle (\<^verbatim>\<open>Texture*\<close>) is a number, \<open>None\<close> the null pointer. \<open>Material\<close>
  holds what the four setters called by ProcessMesh store. \<open>Mesh\<close> holds the seven
  sequences that ProcessMesh moves into the constructor of \<^verbatim>\<open>Mesh\<close>, and the material;
  the constructor and \<^verbatim>\<open>Mesh::LoadData\<close> are defined outside Model.cpp.
\<close>

type_synonym Texture = nat

record Material =
  AlbedoMap :: "Texture option"
  NormalMap :: "Texture option"
  AmbientOcclusionMap :: "Texture option"
  DisplacementMap :: "Texture option"

record Mesh =
  positions :: "vec3 list"
  uvs :: "vec2 list"
  normals :: "vec3 list"
  tangents :: "vec3 list"
  bitangents :: "vec3 list"
  boneWeights :: "VertexBoneData list"
  indices :: "nat list"
  m_Material :: Material

record BoneData =
  boneID :: int
  inverseBindPose :: mat4

text \<open>
  The fields of \<^verbatim>\<open>Model\<close> that Model.cpp uses. \<^verbatim>\<open>m_BoneCount\<close> and the bone ids are
  mathematical integers: a model has far fewer than \<open>2^31\<close> bones.
\<close>

record Model =
  m_Meshes :: "Mesh list"
  m_BoneDataMap :: "string \<rightharpoonup> BoneData"
  m_BoneCount :: int
  m_GlobalInverseTransform :: mat4
  m_Directory :: string
  m_Name :: string

text \<open>
  Lines 13--16, the constructor \<^verbatim>\<open>Model::Model()\<close>. It gives \<^verbatim>\<open>m_BoneCount\<close> and
  \<^verbatim>\<open>m_Meshes\<close> a value; the strings and the map start empty, and the matrix keeps what
  its own default constructor leaves in it, the parameter \<open>g\<close>.
\<close>

definition Model_new :: "mat4 \<Rightarrow> Model" where
  "Model_new g =
     \<lparr>m_Meshes = [], m_BoneDataMap = Map.empty, m_BoneCount = 0,
      m_GlobalInverseTransform = g, m_Directory = [], m_Name = []\<rparr>"

text \<open>
  What Model.cpp uses and does not define: the constant \<^verbatim>\<open>MaxBonesPerVertex\<close>, the
  matrix functions \<^verbatim>\<open>ConvertAssimpMatrixToGLM\<close> and \<^verbatim>\<open>glm::inverse\<close>, the asset
  manager's \<^verbatim>\<open>Load2DTextureAsync\<close> (the handle it returns), and the importer:
  \<open>ReadFile\<close> gives the scene pointer returned by \<^verbatim>\<open>Assimp::Importer::ReadFile\<close> for a
  path, with the string that \<^verbatim>\<open>GetErrorString\<close> returns after that call.
\<close>

record externals =
  MaxBonesPerVertex :: nat
  ConvertAssimpMatrixToGLM :: "aiMatrix4x4 \<Rightarrow> mat4"
  glm_inverse :: "mat4 \<Rightarrow> mat4"
  Load2DTextureAsync :: "string \<Rightarrow> TextureSettings \<Rightarrow> Texture option"
  ReadFile :: "string \<Rightarrow> aiScene option \<times> string"

subsection \<open>ProcessMesh: vertices (lines 86--125)\<close>

text \<open>
  Lines 122--123: the two \<^verbatim>\<open>memset\<close> calls set every bone id of a vertex to \<open>-1\<close>
  (all bytes \<^verbatim>\<open>0xFF\<close>) and every weight to \<open>0\<close>.
\<close>

definition cleared_slots :: "nat \<Rightarrow> VertexBoneData" where
  "cleared_slots M = \<lparr>BoneIDs = replicate M (-1), Weights = replicate M (Fin 0)\<rparr>"

text \<open>
  Line 94: \<^verbatim>\<open>boneWeights.resize(mNumVertices)\<close> value-initialises the new elements;
  every one of them is overwritten by the \<^verbatim>\<open>memset\<close> calls before it is read.
\<close>

definition resized_slots :: "nat \<Rightarrow> VertexBoneData" where
  "resized_slots M = \<lparr>BoneIDs = replicate M 0, Weights = replicate M (Fin 0)\<rparr>"

text \<open>Lines 100--124, the body of the loop over the vertices.\<close>

definition vertex_step :: "nat \<Rightarrow> aiMesh \<Rightarrow> nat \<Rightarrow> Mesh \<Rightarrow> error + Mesh" where
  "vertex_step M mesh i acc =
     and_then
       (case mTextureCoords0 mesh of
          Some tc \<Rightarrow> and_then (read_at (Some tc) i) (\<lambda>t. Inr (fst t, fst (snd t)))
        | None \<Rightarrow> Inr (Fin 0, Fin 0))
       (\<lambda>uvCoord.
     and_then (read_at (mVertices mesh) i) (\<lambda>p.
     and_then (read_at (mNormals mesh) i) (\<lambda>nrm.
     and_then (read_at (mTangents mesh) i) (\<lambda>tng.
     and_then (read_at (mBitangents mesh) i) (\<lambda>btg.
       Inr (acc\<lparr>positions := positions acc @ [p],
                uvs := uvs acc @ [uvCoord],
                normals := normals acc @ [nrm],
                tangents := tangents acc @ [tng],
                bitangents := bitangents acc @ [btg],
                boneWeights :=
                  (if length (mBones mesh) > 0
                   then (boneWeights acc)[i := cleared_slots M]
                   else boneWeights acc)\<rparr>))))))"

function process_vertices :: "nat \<Rightarrow> aiMesh \<Rightarrow> nat \<Rightarrow> Mesh \<Rightarrow> error + Mesh" where
  "process_vertices M mesh i acc =
     (if i < mNumVertices mesh
      then and_then (vertex_step M mesh i acc) (process_vertices M mesh (Suc i))
      else Inr acc)"
  by pat_completeness auto
termination
  by (relation "measure (\<lambda>(M, mesh, i, acc). mNumVertices mesh - i)") auto

subsection \<open>ProcessMesh: bones (lines 131--205)\<close>

text \<open>
  Lines 137--150: the bone's id. A name that the map does not hold gets the value of
  \<^verbatim>\<open>m_BoneCount\<close>, which is then incremented, and is stored with its inverse bind pose;
  a name that the map holds keeps its id.
\<close>

definition RegisterBone :: "externals \<Rightarrow> aiBone \<Rightarrow> Model \<Rightarrow> int \<times> Model" where
  "RegisterBone ext bone m =
     (let boneName = C_Str (mName bone) in
      case m_BoneDataMap m boneName of
        None \<Rightarrow>
          (let newBoneData =
                 \<lparr>boneID = m_BoneCount m,
                  inverseBindPose = ConvertAssimpMatrixToGLM ext (mOffsetMatrix bone)\<rparr>
           in (boneID newBoneData,
               m\<lparr>m_BoneCount := m_BoneCount m + 1,
                 m_BoneDataMap := (m_BoneDataMap m)(boneName \<mapsto> newBoneData)\<rparr>))
      | Some d \<Rightarrow> (boneID d, m))"

text \<open>
  Lines 156--204, the loop over the weights of one bone; \<open>n\<close> is \<^verbatim>\<open>mNumVertices\<close> and
  \<open>bw\<close> the local \<^verbatim>\<open>boneWeights\<close>, \<open>bone_id\<close> the local \<^verbatim>\<open>boneID\<close>. The assertion of
  line 160 stops the loop.
\<close>

fun process_weights ::
  "nat \<Rightarrow> nat \<Rightarrow> int \<Rightarrow> aiVertexWeight list \<Rightarrow> VertexBoneData list \<Rightarrow>
   error + (event list \<times> VertexBoneData list)" where
  "process_weights M n bone_id [] bw = Inr ([], bw)"
| "process_weights M n bone_id (wt # rest) bw =
     (let vertexID = mVertexId wt; currentWeight = mWeight wt in
      if \<not> vertexID < n
      then Inl (AssertionFailed ''Bone data is trying to access an vertex that doesn't exist'')
      else if \<not> vertexID < length bw then Inl OutOfBounds
      else
        (case AssignBoneInfluence M vertexID bone_id currentWeight (bw ! vertexID) of
           (ev, v') \<Rightarrow>
             and_then (process_weights M n bone_id rest (bw[vertexID := v']))
               (\<lambda>(evs, bw'). Inr (ev @ evs, bw'))))"

text \<open>Lines 131--205, the loop over the bones of the mesh.\<close>

fun process_bones ::
  "externals \<Rightarrow> nat \<Rightarrow> aiBone list \<Rightarrow> Model \<times> VertexBoneData list \<Rightarrow>
   error + (event list \<times> Model \<times> VertexBoneData list)" where
  "process_bones ext n [] (m, bw) = Inr ([], m, bw)"
| "process_bones ext n (bone # rest) (m, bw) =
     (case RegisterBone ext bone m of
        (bone_id, m') \<Rightarrow>
          if bone_id = -1 then Inl (AssertionFailed ''Bone not found or created..'')
          else
            and_then (process_weights (MaxBonesPerVertex ext) n bone_id (mWeights bone) bw)
              (\<lambda>(ev, bw').
                 and_then (process_bones ext n rest (m', bw'))
                   (\<lambda>(evs, r). Inr (ev @ evs, r))))"

subsection \<open>ProcessMesh: indices (lines 209--216)\<close>

text \<open>The inner loop pushes the indices of one face, the outer loop runs over the faces.\<close>

fun push_face_indices :: "nat list \<Rightarrow> nat list \<Rightarrow> nat list" where
  "push_face_indices [] out = out"
| "push_face_indices (j # js) out = push_face_indices js (out @ [j])"

fun process_faces :: "aiFace list \<Rightarrow> nat list \<Rightarrow> nat list" where
  "process_faces [] out = out"
| "process_faces (face # faces) out = process_faces faces (push_face_indices (mIndices face) out)"

subsection \<open>LoadMaterialTexture (lines 237--258)\<close>

text \<open>The result is the events of the call and the handle returned.\<close>

definition LoadMaterialTexture ::
  "externals \<Rightarrow> Model \<Rightarrow> aiMaterial \<Rightarrow> aiTextureType \<Rightarrow> bool \<Rightarrow> event list \<times> Texture option" where
  "LoadMaterialTexture ext m mat type isSRGB =
     (let warned = (if GetTextureCount mat type > 1 then [WarnTextureCount] else []) in
      if GetTextureCount mat type > 0
      then
        (let str = GetTexture mat type 0;
             fileToSearch = C_Str (m_Directory m @ ''/'' @ C_Str str);
             textureSettings = \<lparr>IsSRGB = isSRGB\<rparr>
         in (warned @ [LoadTexture fileToSearch textureSettings],
             Load2DTextureAsync ext fileToSearch textureSettings))
      else (warned, None))"

text \<open>Lines 228--231: the four channels of the mesh's material, in the order of the calls.\<close>

definition LoadMaterial :: "externals \<Rightarrow> Model \<Rightarrow> aiMaterial \<Rightarrow> event list \<times> Material" where
  "LoadMaterial ext m material =
     (case LoadMaterialTexture ext m material aiTextureType_DIFFUSE True of (e1, albedo) \<Rightarrow>
      case LoadMaterialTexture ext m material aiTextureType_NORMALS False of (e2, normal) \<Rightarrow>
      case LoadMaterialTexture ext m material aiTextureType_AMBIENT False of (e3, ao) \<Rightarrow>
      case LoadMaterialTexture ext m material aiTextureType_DISPLACEMENT False of (e4, disp) \<Rightarrow>
        (e1 @ e2 @ e3 @ e4,
         \<lparr>AlbedoMap = albedo, NormalMap = normal,
          AmbientOcclusionMap = ao, DisplacementMap = disp\<rparr>))"

subsection \<open>ProcessMesh (lines 78--235)\<close>

text \<open>
  The local vectors start empty, \<^verbatim>\<open>boneWeights\<close> resized when the mesh has bones; the
  material of a new \<^verbatim>\<open>Mesh\<close> has no texture. \<^verbatim>\<open>mMaterialIndex\<close> is unsigned, so the
  test of line 222 always holds.
\<close>

definition empty_material :: Material where
  "empty_material =
     \<lparr>AlbedoMap = None, NormalMap = None, AmbientOcclusionMap = None, DisplacementMap = None\<rparr>"

definition initial_vectors :: "nat \<Rightarrow> aiMesh \<Rightarrow> Mesh" where
  "initial_vectors M mesh =
     \<lparr>positions = [], uvs = [], normals = [], tangents = [], bitangents = [],
      boneWeights =
        (if length (mBones mesh) > 0 then replicate (mNumVertices mesh) (resized_slots M) else []),
      indices = [], m_Material = empty_material\<rparr>"

definition ProcessMesh ::
  "externals \<Rightarrow> aiMesh \<Rightarrow> aiScene \<Rightarrow> Model \<Rightarrow> error + (event list \<times> Model)" where
  "ProcessMesh ext mesh scene m =
     and_then (process_vertices (MaxBonesPerVertex ext) mesh 0
                 (initial_vectors (MaxBonesPerVertex ext) mesh)) (\<lambda>vs.
     and_then (case mRootNode scene of None \<Rightarrow> Inl NullPointer | Some r \<Rightarrow> Inr r)
       (\<lambda>rootNode.
     and_then (process_bones ext (mNumVertices mesh) (mBones mesh)
                 (m\<lparr>m_GlobalInverseTransform :=
                      glm_inverse ext (ConvertAssimpMatrixToGLM ext (mTransformation rootNode))\<rparr>,
                  boneWeights vs)) (\<lambda>(ev1, m2, bw).
     and_then (read_at (Some (mMaterials scene)) (mMaterialIndex mesh)) (\<lambda>material.
       (case LoadMaterial ext m2 material of
          (ev2, mat) \<Rightarrow>
            Inr (ev1 @ ev2,
                 m2\<lparr>m_Meshes := m_Meshes m2 @
                      [vs\<lparr>boneWeights := bw,
                          indices := process_faces (mFaces mesh) [],
                          m_Material := mat\<rparr>]\<rparr>))))))"

subsection \<open>ProcessNode (lines 64--76)\<close>

text \<open>Lines 67--71, the loop over the mesh indices of a node.\<close>

fun process_node_meshes ::
  "externals \<Rightarrow> nat list \<Rightarrow> aiScene \<Rightarrow> Model \<Rightarrow> error + (event list \<times> Model)" where
  "process_node_meshes ext [] scene m = Inr ([], m)"
| "process_node_meshes ext (k # ks) scene m =
     and_then (read_at (Some (mMeshes scene)) k) (\<lambda>mesh.
     and_then (ProcessMesh ext mesh scene m) (\<lambda>(ev, m').
     and_then (process_node_meshes ext ks scene m') (\<lambda>(evs, m'').
       Inr (ev @ evs, m''))))"

text \<open>The node's meshes first, then its children in their order (lines 73--75).\<close>

fun ProcessNode ::
  "externals \<Rightarrow> aiNode \<Rightarrow> aiScene \<Rightarrow> Model \<Rightarrow> error + (event list \<times> Model)"
and process_children ::
  "externals \<Rightarrow> aiNode list \<Rightarrow> aiScene \<Rightarrow> Model \<Rightarrow> error + (event list \<times> Model)" where
  "ProcessNode ext (aiNode tr ms cs) scene m =
     (case process_node_meshes ext ms scene m of
        Inl e \<Rightarrow> Inl e
      | Inr (ev, m') \<Rightarrow>
          (case process_children ext cs scene m' of
             Inl e \<Rightarrow> Inl e
           | Inr (evs, m'') \<Rightarrow> Inr (ev @ evs, m'')))"
| "process_children ext [] scene m = Inr ([], m)"
| "process_children ext (c # cs) scene m =
     (case ProcessNode ext c scene m of
        Inl e \<Rightarrow> Inl e
      | Inr (ev, m') \<Rightarrow>
          (case process_children ext cs scene m' of
             Inl e \<Rightarrow> Inl e
           | Inr (evs, m'') \<Rightarrow> Inr (ev @ evs, m'')))"

subsection \<open>LoadModel (lines 39--54)\<close>

text \<open>
  \<^verbatim>\<open>std::string::find_last_of\<close> and \<^verbatim>\<open>substr\<close>, as the C++ standard defines them.
  Positions are \<^verbatim>\<open>size_t\<close> values, taken as 64 bits wide: \<open>npos\<close> is the largest one,
  and the addition of line 51 wraps around.
\<close>

definition npos :: nat where
  "npos = 2 ^ 64 - 1"

fun find_last_of_from :: "string \<Rightarrow> string \<Rightarrow> nat \<Rightarrow> nat" where
  "find_last_of_from s chars 0 = npos"
| "find_last_of_from s chars (Suc i) =
     (if s ! i \<in> set chars then i else find_last_of_from s chars i)"

definition find_last_of :: "string \<Rightarrow> string \<Rightarrow> nat" where
  "find_last_of s chars = find_last_of_from s chars (length s)"

definition substr :: "string \<Rightarrow> nat \<Rightarrow> nat \<Rightarrow> error + string" where
  "substr s pos count =
     (if pos > length s then Inl OutOfRange else Inr (take count (drop pos s)))"

definition LoadModel :: "externals \<Rightarrow> string \<Rightarrow> Model \<Rightarrow> error + (event list \<times> Model)" where
  "LoadModel ext path m =
     (case ReadFile ext path of
        (scene_ptr, error_string) \<Rightarrow>
          (case scene_ptr of
             None \<Rightarrow> Inr ([LogError (''failed to load model - '' @ error_string)], m)
           | Some scene \<Rightarrow>
               if mFlags scene AND AI_SCENE_FLAGS_INCOMPLETE \<noteq> 0 \<or> mRootNode scene = None
               then Inr ([LogError (''failed to load model - '' @ error_string)], m)
               else
                 and_then (substr path 0 (find_last_of path ''/'')) (\<lambda>directory.
                 and_then (substr path
                             ((find_last_of path [CHR ''/'', CHR 0x5C] + 1) mod 2 ^ 64) npos)
                   (\<lambda>name.
                      ProcessNode ext (the (mRootNode scene)) scene
                        (m\<lparr>m_Directory := directory, m_Name := name\<rparr>)))))"

subsection \<open>Vocabulary of the properties\<close>

text \<open>
  \<open>set_slot\<close> writes one slot of a vertex and leaves every other slot as it is.
  \<open>first_unused\<close> says that slot \<open>i\<close> is the first one whose bone id is \<open>-1\<close>,
  \<open>slots_full\<close> that no slot is unused. \<open>first_minimum\<close> says that slot \<open>k\<close> is the
  first one holding the minimum weight: no slot compares below it, and no earlier slot
  holds the same weight.
\<close>

definition set_slot :: "VertexBoneData \<Rightarrow> nat \<Rightarrow> int \<Rightarrow> cfloat \<Rightarrow> VertexBoneData" where
  "set_slot v i b w = v\<lparr>BoneIDs := (BoneIDs v)[i := b], Weights := (Weights v)[i := w]\<rparr>"

definition first_unused :: "nat \<Rightarrow> VertexBoneData \<Rightarrow> nat \<Rightarrow> bool" where
  "first_unused M v i =
     (i < M \<and> BoneIDs v ! i = -1 \<and> (\<forall>j\<in>{..<i}. BoneIDs v ! j \<noteq> -1))"

definition slots_full :: "nat \<Rightarrow> VertexBoneData \<Rightarrow> bool" where
  "slots_full M v = (\<forall>j\<in>{..<M}. BoneIDs v ! j \<noteq> -1)"

definition first_minimum :: "nat \<Rightarrow> cfloat list \<Rightarrow> nat \<Rightarrow> bool" where
  "first_minimum M ws k =
     (k < M \<and> (\<forall>j\<in>{..<M}. \<not> fless (ws ! j) (ws ! k)) \<and> (\<forall>j\<in>{..<k}. ws ! j \<noteq> ws ! k))"

text \<open>
  \<open>uv_of\<close> is the texture coordinate that the source mesh gives for a vertex, (0,0)
  when it has no texture-coordinate channel; \<open>new_mesh\<close> is the mesh that a call of
  ProcessMesh has appended to the model.
\<close>

definition uv_of :: "aiMesh \<Rightarrow> nat \<Rightarrow> vec2" where
  "uv_of mesh i =
     (case mTextureCoords0 mesh of
        None \<Rightarrow> (Fin 0, Fin 0)
      | Some tc \<Rightarrow> (fst (tc ! i), fst (snd (tc ! i))))"

definition new_mesh :: "Model \<Rightarrow> Mesh" where
  "new_mesh m' = last (m_Meshes m')"

text \<open>
  \<open>texture_file\<close> is the file requested for the first texture that a material holds
  for a type: the model's directory, a slash and the texture's path.
\<close>

definition texture_file :: "Model \<Rightarrow> aiMaterial \<Rightarrow> aiTextureType \<Rightarrow> string" where
  "texture_file m mat type = C_Str (m_Directory m @ ''/'' @ C_Str (hd (textures mat type)))"

text \<open>
  \<open>no_shared_bone\<close> says that no two occupied slots of a vertex (slots whose bone id
  is not \<open>-1\<close>) hold the same bone id. \<open>registry_ok\<close> says that the ids stored in
  the bone map are below the counter and differ from name to name. \<open>influences_upto\<close>
  is the mesh whose bones end after the first \<open>j\<close> weights of bone \<open>k\<close>: for this mesh
  the loop over the bones stops at that point.
\<close>

definition no_shared_bone :: "VertexBoneData \<Rightarrow> bool" where
  "no_shared_bone v = distinct (filter (\<lambda>b. b \<noteq> -1) (BoneIDs v))"

definition registry_ok :: "Model \<Rightarrow> bool" where
  "registry_ok m =
     ((\<forall>name d. m_BoneDataMap m name = Some d \<longrightarrow> boneID d < m_BoneCount m) \<and>
      (\<forall>name1 name2 d1 d2.
         m_BoneDataMap m name1 = Some d1 \<and> m_BoneDataMap m name2 = Some d2 \<and>
         boneID d1 = boneID d2 \<longrightarrow> name1 = name2))"

definition influences_upto :: "aiMesh \<Rightarrow> nat \<Rightarrow> nat \<Rightarrow> aiMesh" where
  "influences_upto mesh k j =
     mesh\<lparr>mBones := take k (mBones mesh) @
              [(mBones mesh ! k)\<lparr>mWeights := take j (mWeights (mBones mesh ! k))\<rparr>]\<rparr>"

text \<open>
  \<open>register_all\<close> registers the bones of a list one after the other, as the loop over
  the bones does, and keeps the model only.
\<close>

definition register_all :: "externals \<Rightarrow> aiBone list \<Rightarrow> Model \<Rightarrow> Model" where
  "register_all ext bones m = fold (\<lambda>bone m'. snd (RegisterBone ext bone m')) bones m"

text \<open>Collaborators for the concrete runs below.\<close>

definition example_ext :: externals where
  "example_ext =
     \<lparr>MaxBonesPerVertex = 4,
      ConvertAssimpMatrixToGLM = (\<lambda>a. a),
      glm_inverse = (\<lambda>a. a),
      Load2DTextureAsync = (\<lambda>file settings. Some (length file)),
      ReadFile = (\<lambda>path. (None, ''no such file''))\<rparr>"

text \<open>
  A square of four vertices, with the texture coordinates, bones and faces given, and a
  scene of one node holding one mesh and one material.
\<close>

definition quad_mesh :: "aiVector3D list option \<Rightarrow> aiBone list \<Rightarrow> aiFace list \<Rightarrow> aiMesh" where
  "quad_mesh tc bones faces =
     \<lparr>mNumVertices = 4,
      mVertices = Some [(Fin 0, Fin 0, Fin 0), (Fin 1, Fin 0, Fin 0),
                        (Fin 1, Fin 1, Fin 0), (Fin 0, Fin 1, Fin 0)],
      mNormals = Some (replicate 4 (Fin 0, Fin 0, Fin 1)),
      mTangents = Some (replicate 4 (Fin 1, Fin 0, Fin 0)),
      mBitangents = Some (replicate 4 (Fin 0, Fin 1, Fin 0)),
      mTextureCoords0 = tc,
      mBones = bones,
      mFaces = faces,
      mMaterialIndex = 0\<rparr>"

definition one_mesh_scene :: "aiMesh \<Rightarrow> aiMaterial \<Rightarrow> aiScene" where
  "one_mesh_scene mesh material =
     \<lparr>mFlags = 0, mRootNode = Some (aiNode [] [0] []),
      mMeshes = [mesh], mMaterials = [material]\<rparr>"

definition no_textures :: aiMaterial where
  "no_textures = \<lparr>textures = (\<lambda>type. [])\<rparr>"

text \<open>
  Two triangles on the square, two bones that both influence vertex 0, the square
  without bones and texture coordinates, the square with both, and ProcessMesh run on a
  new model for a scene that holds the given mesh.
\<close>

definition two_triangles :: "aiFace list" where
  "two_triangles = [\<lparr>mIndices = [0, 1, 2]\<rparr>, \<lparr>mIndices = [2, 3, 0]\<rparr>]"

definition two_bones :: "aiBone list" where
  "two_bones =
     [\<lparr>mName = ''hip'', mOffsetMatrix = [],
       mWeights = [\<lparr>mVertexId = 0, mWeight = Fin (1/2)\<rparr>, \<lparr>mVertexId = 1, mWeight = Fin 1\<rparr>]\<rparr>,
      \<lparr>mName = ''spine'', mOffsetMatrix = [],
       mWeights = [\<lparr>mVertexId = 0, mWeight = Fin (1/2)\<rparr>, \<lparr>mVertexId = 2, mWeight = Fin 1\<rparr>]\<rparr>]"

definition plain_quad :: aiMesh where
  "plain_quad = quad_mesh None [] two_triangles"

definition skinned_quad :: aiMesh where
  "skinned_quad =
     quad_mesh (Some [(Fin 0, Fin 0, Fin 0), (Fin 1, Fin 0, Fin 0),
                      (Fin 1, Fin 1, Fin 0), (Fin 0, Fin 1, Fin 0)]) two_bones two_triangles"

definition load_quad :: "aiMesh \<Rightarrow> error + (event list \<times> Model)" where
  "load_quad mesh = ProcessMesh example_ext mesh (one_mesh_scene mesh no_textures) (Model_new [])"

text \<open>
  A material with two diffuse textures and one normal map, and a scene that the
  importer marks with the given flags and root node.
\<close>

definition two_albedo :: aiMaterial where
  "two_albedo =
     \<lparr>textures = (\<lambda>type. if type = aiTextureType_DIFFUSE then [''a.png'', ''b.png'']
                          else if type = aiTextureType_NORMALS then [''n.png''] else [])\<rparr>"

definition broken_scene :: "32 word \<Rightarrow> aiNode option \<Rightarrow> aiScene" where
  "broken_scene flags rootNode =
     \<lparr>mFlags = flags, mRootNode = rootNode, mMeshes = [plain_quad], mMaterials = [no_textures]\<rparr>"

text \<open>
  An importer that returns the scene of the square for every path, and a path with a
  slash and a later backslash.
\<close>

definition quad_importer :: externals where
  "quad_importer =
     example_ext\<lparr>ReadFile := (\<lambda>path. (Some (one_mesh_scene plain_quad no_textures), []))\<rparr>"

definition hero_path :: string where
  "hero_path = ''res/models'' @ CHR 0x5C # ''hero.obj''"

text \<open>
  The square with one bone that lists vertex 0 twice, and the square with two bones of
  the same name that both list vertex 0.
\<close>

definition twice_quad :: aiMesh where
  "twice_quad =
     quad_mesh None
       [\<lparr>mName = ''hip'', mOffsetMatrix = [],
         mWeights = [\<lparr>mVertexId = 0, mWeight = Fin (1/2)\<rparr>,
                     \<lparr>mVertexId = 0, mWeight = Fin (1/4)\<rparr>]\<rparr>]
       two_triangles"

definition same_name_quad :: aiMesh where
  "same_name_quad =
     quad_mesh None
       [\<lparr>mName = ''hip'', mOffsetMatrix = [],
         mWeights = [\<lparr>mVertexId = 0, mWeight = Fin (1/2)\<rparr>]\<rparr>,
        \<lparr>mName = ''hip'', mOffsetMatrix = [],
         mWeights = [\<lparr>mVertexId = 0, mWeight = Fin (1/4)\<rparr>]\<rparr>]
       two_triangles"

subsection \<open>Facts about the comparisons\<close>

declare fill_open_slot.simps [simp del]
declare find_lowest.simps [simp del]
declare process_vertices.simps [simp del]

lemma fless_not_NaN: "fless a b \<Longrightarrow> a \<noteq> NaN \<and> b \<noteq> NaN"
  by (cases a; cases b) auto

lemma fless_irrefl: "\<not> fless a a"
  by (cases a) auto

lemma fless_trans: "fless a b \<Longrightarrow> fless b c \<Longrightarrow> fless a c"
  by (cases a; cases b; cases c) auto

lemma fless_asym: "fless a b \<Longrightarrow> \<not> fless b a"
  by (cases a; cases b) auto

lemma fless_total: "a \<noteq> NaN \<Longrightarrow> b \<noteq> NaN \<Longrightarrow> \<not> fless a b \<Longrightarrow> a \<noteq> b \<Longrightarrow> fless b a"
  by (cases a; cases b) auto

lemma fge_not_fless: "fge a b \<Longrightarrow> \<not> fless a b"
  by (simp add: fge_def)

subsection \<open>Facts about the two scans\<close>

lemma fill_open_slot_found:
  "i0 \<le> i \<Longrightarrow> i < M \<Longrightarrow> BoneIDs v ! i = -1 \<Longrightarrow>
   (\<forall>j. i0 \<le> j \<and> j < i \<longrightarrow> BoneIDs v ! j \<noteq> -1) \<Longrightarrow>
   fill_open_slot M b w v i0 =
     (True, v\<lparr>BoneIDs := (BoneIDs v)[i := b], Weights := (Weights v)[i := w]\<rparr>)"
proof (induction M b w v i0 rule: fill_open_slot.induct)
  case (1 M boneID currentWeight v i0)
  show ?case
  proof (cases "i0 = i")
    case True
    with 1 show ?thesis by (simp add: fill_open_slot.simps [of M boneID currentWeight v i])
  next
    case False
    with 1 have lt: "i0 < i" by simp
    with 1 have ne: "BoneIDs v ! i0 \<noteq> -1" by simp
    have "fill_open_slot M boneID currentWeight v (Suc i0) =
      (True, v\<lparr>BoneIDs := (BoneIDs v)[i := boneID], Weights := (Weights v)[i := currentWeight]\<rparr>)"
      using 1 lt ne by (intro "1.IH") auto
    with lt ne 1 show ?thesis
      by (simp add: fill_open_slot.simps [of M boneID currentWeight v i0])
  qed
qed

lemma fill_open_slot_none:
  "(\<forall>j. i0 \<le> j \<and> j < M \<longrightarrow> BoneIDs v ! j \<noteq> -1) \<Longrightarrow>
   fill_open_slot M b w v i0 = (False, v)"
proof (induction M b w v i0 rule: fill_open_slot.induct)
  case (1 M boneID currentWeight v i0)
  show ?case
  proof (cases "i0 < M")
    case True
    with 1 have ne: "BoneIDs v ! i0 \<noteq> -1" by simp
    have "fill_open_slot M boneID currentWeight v (Suc i0) = (False, v)"
      using 1 True ne by (intro "1.IH") auto
    with True ne show ?thesis
      by (simp add: fill_open_slot.simps [of M boneID currentWeight v i0])
  next
    case False
    then show ?thesis
      by (simp add: fill_open_slot.simps [of M boneID currentWeight v i0])
  qed
qed

lemma find_lowest_none:
  "(\<forall>j. i \<le> j \<and> j < M \<longrightarrow> \<not> fless (ws ! j) L) \<Longrightarrow>
   find_lowest M ws i (L, idx) = (L, idx)"
proof (induction M ws i "(L, idx)" rule: find_lowest.induct)
  case (1 M ws i)
  show ?case
  proof (cases "i < M")
    case True
    with 1 have nl: "\<not> fless (ws ! i) L" by simp
    have "find_lowest M ws (Suc i) (L, idx) = (L, idx)"
      using 1 True nl by (intro "1.hyps"(2)) auto
    with True nl show ?thesis by (simp add: find_lowest.simps [of M ws i])
  next
    case False
    then show ?thesis by (simp add: find_lowest.simps [of M ws i])
  qed
qed

lemma find_lowest_first_min:
  "i \<le> k \<Longrightarrow> k < M \<Longrightarrow> fless (ws ! k) L \<Longrightarrow>
   (\<forall>j. i \<le> j \<and> j < M \<longrightarrow> \<not> fless (ws ! j) (ws ! k)) \<Longrightarrow>
   (\<forall>j. i \<le> j \<and> j < k \<longrightarrow> ws ! j \<noteq> ws ! k) \<Longrightarrow>
   find_lowest M ws i (L, idx) = (ws ! k, int k)"
proof (induction M ws i "(L, idx)" arbitrary: L idx rule: find_lowest.induct)
  case (1 M ws i L idx)
  have iM: "i < M" using 1 by simp
  show ?case
  proof (cases "i = k")
    case True
    have "find_lowest M ws (Suc k) (ws ! k, int k) = (ws ! k, int k)"
      using 1 True by (intro find_lowest_none) auto
    with True iM 1 show ?thesis by (simp add: find_lowest.simps [of M ws k])
  next
    case False
    with 1 have ik: "i < k" by simp
    with 1 have neq: "ws ! i \<noteq> ws ! k" and nless: "\<not> fless (ws ! i) (ws ! k)" by auto
    show ?thesis
    proof (cases "fless (ws ! i) L")
      case True
      have nn: "ws ! i \<noteq> NaN" "ws ! k \<noteq> NaN"
        using True "1.prems"(3) fless_not_NaN by blast+
      have lt: "fless (ws ! k) (ws ! i)"
        using fless_total [OF nn nless neq] .
      have "find_lowest M ws (Suc i) (ws ! i, int i) = (ws ! k, int k)"
        using 1 ik iM True lt by (intro "1.hyps"(1)) auto
      with iM True show ?thesis by (simp add: find_lowest.simps [of M ws i])
    next
      case False
      have "find_lowest M ws (Suc i) (L, idx) = (ws ! k, int k)"
        using 1 ik iM False by (intro "1.hyps"(2)) auto
      with iM False show ?thesis by (simp add: find_lowest.simps [of M ws i])
    qed
  qed
qed

lemma find_lowest_result:
  "find_lowest M ws i (L, idx) = (L', idx') \<Longrightarrow>
   (L' = L \<and> idx' = idx) \<or>
   (\<exists>k. i \<le> k \<and> k < M \<and> idx' = int k \<and> L' = ws ! k \<and> fless L' L)"
proof (induction M ws i "(L, idx)" arbitrary: L idx rule: find_lowest.induct)
  case (1 M ws i L idx)
  show ?case
  proof (cases "i < M")
    case iM: True
    show ?thesis
    proof (cases "fless (ws ! i) L")
      case True
      with iM 1 have r: "find_lowest M ws (Suc i) (ws ! i, int i) = (L', idx')"
        by (simp add: find_lowest.simps [of M ws i])
      from "1.hyps"(1) [OF iM True r]
      show ?thesis
      proof
        assume "L' = ws ! i \<and> idx' = int i"
        with iM True show ?thesis by auto
      next
        assume "\<exists>k. Suc i \<le> k \<and> k < M \<and> idx' = int k \<and> L' = ws ! k \<and> fless L' (ws ! i)"
        then obtain k where k: "Suc i \<le> k" "k < M" "idx' = int k" "L' = ws ! k"
          "fless L' (ws ! i)" by blast
        from k(5) True have "fless L' L" by (rule fless_trans)
        with k show ?thesis by auto
      qed
    next
      case False
      with iM 1 have r: "find_lowest M ws (Suc i) (L, idx) = (L', idx')"
        by (simp add: find_lowest.simps [of M ws i])
      from "1.hyps"(2) [OF iM False r] show ?thesis by auto
    qed
  next
    case False
    with 1 show ?thesis by (simp add: find_lowest.simps [of M ws i])
  qed
qed

lemma first_minimum_exists:
  "\<exists>j<n. fless (ws ! j) L \<Longrightarrow>
   \<exists>k<n. fless (ws ! k) L \<and> (\<forall>j<n. \<not> fless (ws ! j) (ws ! k)) \<and> (\<forall>j<k. ws ! j \<noteq> ws ! k)"
proof (induction n)
  case 0
  then show ?case by simp
next
  case (Suc n)
  show ?case
  proof (cases "\<exists>j<n. fless (ws ! j) L")
    case True
    from Suc.IH [OF True] obtain k where k: "k < n" "fless (ws ! k) L"
      "\<forall>j<n. \<not> fless (ws ! j) (ws ! k)" "\<forall>j<k. ws ! j \<noteq> ws ! k" by blast
    show ?thesis
    proof (cases "fless (ws ! n) (ws ! k)")
      case less: True
      have a: "fless (ws ! n) L" using less k(2) by (rule fless_trans)
      have b: "\<forall>j<Suc n. \<not> fless (ws ! j) (ws ! n)"
        using k(3) less fless_trans fless_irrefl by (metis less_Suc_eq)
      have c: "\<forall>j<n. ws ! j \<noteq> ws ! n"
        using k(3) less by metis
      from a b c show ?thesis by blast
    next
      case False
      with k have "\<forall>j<Suc n. \<not> fless (ws ! j) (ws ! k)" by (simp add: less_Suc_eq)
      with k show ?thesis by (metis less_Suc_eq)
    qed
  next
    case False
    with Suc.prems have a: "fless (ws ! n) L" by (metis less_Suc_eq)
    have b: "\<forall>j<Suc n. \<not> fless (ws ! j) (ws ! n)"
      using False a fless_trans fless_irrefl by (metis less_Suc_eq)
    have c: "\<forall>j<n. ws ! j \<noteq> ws ! n"
      using False a by metis
    from a b c show ?thesis by blast
  qed
qed

subsection \<open>One influence on one vertex\<close>

lemma assign_first_unused:
  assumes "first_unused M v i"
  shows "AssignBoneInfluence M vid b w v = ([], set_slot v i b w)"
proof -
  have "fill_open_slot M b w v 0 = (True, set_slot v i b w)"
    unfolding set_slot_def using assms
    by (intro fill_open_slot_found) (auto simp: first_unused_def)
  then show ?thesis by (simp add: AssignBoneInfluence_def)
qed

lemma assign_full:
  assumes "slots_full M v"
  shows "AssignBoneInfluence M vid b w v =
     (case find_lowest M (Weights v) 0 (Fin 1, -1) of
        (lowestWeight, smallestWeightIndex) \<Rightarrow>
          if fless lowestWeight w \<and> smallestWeightIndex \<noteq> -1
          then ([WarnReplace M vid (BoneIDs v ! nat smallestWeightIndex)
                   (Weights v ! nat smallestWeightIndex) b w],
                set_slot v (nat smallestWeightIndex) b w)
          else ([WarnDrop M vid b w], v))"
proof -
  have "fill_open_slot M b w v 0 = (False, v)"
    using assms by (intro fill_open_slot_none) (auto simp: slots_full_def)
  then show ?thesis
    by (simp add: AssignBoneInfluence_def set_slot_def split: prod.split)
qed

lemma assign_full_min:
  assumes "slots_full M v" "first_minimum M (Weights v) k" "fless (Weights v ! k) (Fin 1)"
  shows "AssignBoneInfluence M vid b w v =
     (if fless (Weights v ! k) w
      then ([WarnReplace M vid (BoneIDs v ! k) (Weights v ! k) b w], set_slot v k b w)
      else ([WarnDrop M vid b w], v))"
proof -
  have "find_lowest M (Weights v) 0 (Fin 1, -1) = (Weights v ! k, int k)"
    using assms by (intro find_lowest_first_min) (auto simp: first_minimum_def)
  then show ?thesis by (simp add: assign_full [OF assms(1)])
qed

lemma assign_full_none:
  assumes "slots_full M v" "\<forall>j\<in>{..<M}. \<not> fless (Weights v ! j) (Fin 1)"
  shows "AssignBoneInfluence M vid b w v = ([WarnDrop M vid b w], v)"
proof -
  have "find_lowest M (Weights v) 0 (Fin 1, -1) = (Fin 1, -1)"
    using assms by (intro find_lowest_none) auto
  then show ?thesis by (simp add: assign_full [OF assms(1)])
qed

lemma assign_result_cases:
  assumes "slots_full M v"
  shows "AssignBoneInfluence M vid b w v = ([WarnDrop M vid b w], v) \<or>
    (\<exists>k<M. fless (Weights v ! k) (Fin 1) \<and>
       AssignBoneInfluence M vid b w v =
         ([WarnReplace M vid (BoneIDs v ! k) (Weights v ! k) b w], set_slot v k b w))"
proof -
  obtain L idx where r: "find_lowest M (Weights v) 0 (Fin 1, -1) = (L, idx)"
    by (cases "find_lowest M (Weights v) 0 (Fin 1, -1)") auto
  from find_lowest_result [OF r] show ?thesis
  proof
    assume "L = Fin 1 \<and> idx = -1"
    with r show ?thesis by (simp add: assign_full [OF assms])
  next
    assume "\<exists>k. 0 \<le> k \<and> k < M \<and> idx = int k \<and> L = Weights v ! k \<and> fless L (Fin 1)"
    then obtain k where k: "k < M" "idx = int k" "L = Weights v ! k" "fless L (Fin 1)"
      by blast
    with r show ?thesis by (auto simp add: assign_full [OF assms])
  qed
qed

text \<open>
  Where some slot holds a weight below 1.0, a first slot holding the minimum exists, so
  the cases of the theorem below cover every vertex.
\<close>

lemma first_minimum_below_one:
  assumes "\<exists>j<M. fless (ws ! j) (Fin 1)"
  shows "\<exists>k. first_minimum M ws k \<and> fless (ws ! k) (Fin 1)"
  using first_minimum_exists [OF assms] unfolding first_minimum_def by auto

subsection \<open>C1: slot assignment\<close>

text \<open>
  C1, as the code has it. For a vertex whose two arrays have the capacity \<open>M\<close>: when
  slot \<open>i\<close> is the first unused one, the influence is written to slot \<open>i\<close> and nothing
  else changes. When no slot is unused and slot \<open>k\<close> is the first one holding the minimum
  weight, that weight being below 1.0, slot \<open>k\<close> is overwritten exactly when the new
  weight is greater than the minimum; a tie leaves the vertex unchanged. When no slot is
  unused and no weight is below 1.0, the vertex is left unchanged whatever the new weight
  is. The claim as written promises the replacement for every minimum.
\<close>

theorem slot_assignment:
  assumes "length (BoneIDs v) = M" and "length (Weights v) = M"
  shows "(\<forall>i. first_unused M v i \<longrightarrow>
            snd (AssignBoneInfluence M vid b w v) = set_slot v i b w) \<and>
         (slots_full M v \<longrightarrow>
            (\<forall>k. first_minimum M (Weights v) k \<and> fless (Weights v ! k) (Fin 1) \<longrightarrow>
               snd (AssignBoneInfluence M vid b w v) =
                 (if fless (Weights v ! k) w then set_slot v k b w else v)) \<and>
            ((\<forall>j\<in>{..<M}. \<not> fless (Weights v ! j) (Fin 1)) \<longrightarrow>
               snd (AssignBoneInfluence M vid b w v) = v))"
proof (intro conjI impI allI)
  fix i assume "first_unused M v i"
  then show "snd (AssignBoneInfluence M vid b w v) = set_slot v i b w"
    by (simp only: assign_first_unused snd_conv)
next
  fix k assume f: "slots_full M v"
    and m: "first_minimum M (Weights v) k \<and> fless (Weights v ! k) (Fin 1)"
  from m have m1: "first_minimum M (Weights v) k" and m2: "fless (Weights v ! k) (Fin 1)"
    by blast+
  show "snd (AssignBoneInfluence M vid b w v) =
      (if fless (Weights v ! k) w then set_slot v k b w else v)"
    unfolding assign_full_min [OF f m1 m2] by simp
next
  assume "slots_full M v" "\<forall>j\<in>{..<M}. \<not> fless (Weights v ! j) (Fin 1)"
  then show "snd (AssignBoneInfluence M vid b w v) = v"
    by (simp only: assign_full_none snd_conv)
qed

theorem slot_assignment_witness:
  "snd (AssignBoneInfluence 4 9 7 (Fin (1/2))
          \<lparr>BoneIDs = [5, 2, -1, -1], Weights = [Fin (2/5), Fin (1/10), Fin 0, Fin 0]\<rparr>) =
     \<lparr>BoneIDs = [5, 2, 7, -1], Weights = [Fin (2/5), Fin (1/10), Fin (1/2), Fin 0]\<rparr> \<and>
   snd (AssignBoneInfluence 4 9 7 (Fin (1/2))
          \<lparr>BoneIDs = [0, 1, 2, 3], Weights = [Fin (1/10), Fin (1/5), Fin (3/10), Fin (2/5)]\<rparr>) =
     \<lparr>BoneIDs = [7, 1, 2, 3], Weights = [Fin (1/2), Fin (1/5), Fin (3/10), Fin (2/5)]\<rparr> \<and>
   snd (AssignBoneInfluence 4 9 7 (Fin (1/10))
          \<lparr>BoneIDs = [0, 1, 2, 3], Weights = [Fin (1/10), Fin (1/5), Fin (3/10), Fin (2/5)]\<rparr>) =
     \<lparr>BoneIDs = [0, 1, 2, 3], Weights = [Fin (1/10), Fin (1/5), Fin (3/10), Fin (2/5)]\<rparr> \<and>
   snd (AssignBoneInfluence 4 9 7 (Fin 2)
          \<lparr>BoneIDs = [0, 1, 2, 3], Weights = [Fin 1, Fin 1, Fin 1, Fin 1]\<rparr>) =
     \<lparr>BoneIDs = [0, 1, 2, 3], Weights = [Fin 1, Fin 1, Fin 1, Fin 1]\<rparr>"
proof -
  let ?a = "\<lparr>BoneIDs = [5, 2, -1, -1], Weights = [Fin (2/5), Fin (1/10), Fin 0, Fin 0]\<rparr>"
  let ?b = "\<lparr>BoneIDs = [0, 1, 2, 3], Weights = [Fin (1/10), Fin (1/5), Fin (3/10), Fin (2/5)]\<rparr>"
  let ?c = "\<lparr>BoneIDs = [0, 1, 2, 3], Weights = [Fin 1, Fin 1, Fin 1, Fin 1]\<rparr>"
  have u: "first_unused 4 ?a 2"
    by (simp add: first_unused_def lessThan_nat_numeral lessThan_Suc)
  have fb: "slots_full 4 ?b" and fc: "slots_full 4 ?c"
    by (simp_all add: slots_full_def lessThan_nat_numeral lessThan_Suc)
  have mb: "first_minimum 4 (Weights ?b) 0 \<and> fless (Weights ?b ! 0) (Fin 1)"
    by (simp add: first_minimum_def lessThan_nat_numeral lessThan_Suc)
  have nc: "\<forall>j\<in>{..<4}. \<not> fless (Weights ?c ! j) (Fin 1)"
    by (simp add: lessThan_nat_numeral lessThan_Suc)
  have la: "length (BoneIDs ?a) = 4" "length (Weights ?a) = 4"
    and lb: "length (BoneIDs ?b) = 4" "length (Weights ?b) = 4"
    and lc: "length (BoneIDs ?c) = 4" "length (Weights ?c) = 4"
    by simp_all
  have 1: "snd (AssignBoneInfluence 4 9 7 (Fin (1/2)) ?a) = set_slot ?a 2 7 (Fin (1/2))"
    using slot_assignment [OF la, of 9 7 "Fin (1/2)"] u by blast
  have "snd (AssignBoneInfluence 4 9 7 (Fin (1/2)) ?b) =
      (if fless (Weights ?b ! 0) (Fin (1/2)) then set_slot ?b 0 7 (Fin (1/2)) else ?b)"
    using slot_assignment [OF lb, of 9 7 "Fin (1/2)"] fb mb by blast
  then have 2: "snd (AssignBoneInfluence 4 9 7 (Fin (1/2)) ?b) = set_slot ?b 0 7 (Fin (1/2))"
    by simp
  have "snd (AssignBoneInfluence 4 9 7 (Fin (1/10)) ?b) =
      (if fless (Weights ?b ! 0) (Fin (1/10)) then set_slot ?b 0 7 (Fin (1/10)) else ?b)"
    using slot_assignment [OF lb, of 9 7 "Fin (1/10)"] fb mb by blast
  then have 3: "snd (AssignBoneInfluence 4 9 7 (Fin (1/10)) ?b) = ?b"
    by simp
  have 4: "snd (AssignBoneInfluence 4 9 7 (Fin 2) ?c) = ?c"
    using slot_assignment [OF lc, of 9 7 "Fin 2"] fc nc by blast
  from 1 2 3 4 show ?thesis by (simp add: set_slot_def)
qed

text \<open>
  C1 as written fails: every slot is occupied, slot 0 is the first one holding the
  minimum weight 1.0 and the new weight 2.0 is greater, yet no slot is overwritten.
\<close>

theorem slot_assignment_counterexample:
  "slots_full 4 \<lparr>BoneIDs = [0, 1, 2, 3], Weights = [Fin 1, Fin 1, Fin 1, Fin 1]\<rparr> \<and>
   first_minimum 4 [Fin 1, Fin 1, Fin 1, Fin 1] 0 \<and>
   fless ([Fin 1, Fin 1, Fin 1, Fin 1] ! 0) (Fin 2) \<and>
   snd (AssignBoneInfluence 4 9 7 (Fin 2)
          \<lparr>BoneIDs = [0, 1, 2, 3], Weights = [Fin 1, Fin 1, Fin 1, Fin 1]\<rparr>) \<noteq>
     set_slot \<lparr>BoneIDs = [0, 1, 2, 3], Weights = [Fin 1, Fin 1, Fin 1, Fin 1]\<rparr> 0 7 (Fin 2)"
  by code_simp

subsection \<open>C8: weights of at least 1.0 are never evicted\<close>

text \<open>
  C8. The scan for the lowest weight starts from 1.0 and compares with \<^verbatim>\<open><\<close>: on a
  vertex with no unused slot, a slot whose weight is at least 1.0 is never the one the
  scan selects and keeps its bone id and weight; when every slot holds a weight of at
  least 1.0 the vertex is left unchanged, whatever the new weight is.
\<close>

theorem heavy_slots_never_evicted:
  assumes "length (BoneIDs v) = M" and "length (Weights v) = M" and "slots_full M v"
  shows "(\<forall>k\<in>{..<M}. fge (Weights v ! k) (Fin 1) \<longrightarrow>
            snd (find_lowest M (Weights v) 0 (Fin 1, -1)) \<noteq> int k \<and>
            BoneIDs (snd (AssignBoneInfluence M vid b w v)) ! k = BoneIDs v ! k \<and>
            Weights (snd (AssignBoneInfluence M vid b w v)) ! k = Weights v ! k) \<and>
         ((\<forall>k\<in>{..<M}. fge (Weights v ! k) (Fin 1)) \<longrightarrow>
            snd (AssignBoneInfluence M vid b w v) = v)"
proof (intro conjI ballI impI)
  fix k assume k: "k \<in> {..<M}" and ge: "fge (Weights v ! k) (Fin 1)"
  from ge have nl: "\<not> fless (Weights v ! k) (Fin 1)" by (rule fge_not_fless)
  obtain L idx where r: "find_lowest M (Weights v) 0 (Fin 1, -1) = (L, idx)"
    by (cases "find_lowest M (Weights v) 0 (Fin 1, -1)") auto
  from find_lowest_result [OF r] nl
  show "snd (find_lowest M (Weights v) 0 (Fin 1, -1)) \<noteq> int k"
    unfolding r by auto
  have "snd (AssignBoneInfluence M vid b w v) = v \<or>
      (\<exists>k'. k' \<noteq> k \<and> snd (AssignBoneInfluence M vid b w v) = set_slot v k' b w)"
    using assign_result_cases [OF assms(3), of vid b w] nl by auto
  then show "BoneIDs (snd (AssignBoneInfluence M vid b w v)) ! k = BoneIDs v ! k"
    and "Weights (snd (AssignBoneInfluence M vid b w v)) ! k = Weights v ! k"
    by (auto simp: set_slot_def)
next
  assume "\<forall>k\<in>{..<M}. fge (Weights v ! k) (Fin 1)"
  then have "\<forall>j\<in>{..<M}. \<not> fless (Weights v ! j) (Fin 1)"
    using fge_not_fless by blast
  with assms(3) show "snd (AssignBoneInfluence M vid b w v) = v"
    by (simp only: assign_full_none snd_conv)
qed

theorem heavy_slots_never_evicted_witness:
  "snd (find_lowest 4 [Fin 1, Fin (1/5), Fin (3/2), Fin (2/5)] 0 (Fin 1, -1)) \<noteq> int 2 \<and>
   BoneIDs (snd (AssignBoneInfluence 4 9 7 (Fin 3)
      \<lparr>BoneIDs = [0, 1, 2, 3], Weights = [Fin 1, Fin (1/5), Fin (3/2), Fin (2/5)]\<rparr>)) ! 2 = 2 \<and>
   Weights (snd (AssignBoneInfluence 4 9 7 (Fin 3)
      \<lparr>BoneIDs = [0, 1, 2, 3], Weights = [Fin 1, Fin (1/5), Fin (3/2), Fin (2/5)]\<rparr>)) ! 2 =
     Fin (3/2) \<and>
   snd (AssignBoneInfluence 4 9 7 (Fin 3)
      \<lparr>BoneIDs = [0, 1, 2, 3], Weights = [Fin 1, Fin 1, Fin (3/2), PosInf]\<rparr>) =
     \<lparr>BoneIDs = [0, 1, 2, 3], Weights = [Fin 1, Fin 1, Fin (3/2), PosInf]\<rparr>"
proof -
  let ?a = "\<lparr>BoneIDs = [0, 1, 2, 3], Weights = [Fin 1, Fin (1/5), Fin (3/2), Fin (2/5)]\<rparr>"
  let ?c = "\<lparr>BoneIDs = [0, 1, 2, 3], Weights = [Fin 1, Fin 1, Fin (3/2), PosInf]\<rparr>"
  have fa: "slots_full 4 ?a" and fc: "slots_full 4 ?c"
    by (simp_all add: slots_full_def lessThan_nat_numeral lessThan_Suc)
  have ga: "fge (Weights ?a ! 2) (Fin 1)"
    by (simp add: fge_def)
  have gc: "\<forall>k\<in>{..<4}. fge (Weights ?c ! k) (Fin 1)"
    by (simp add: fge_def lessThan_nat_numeral lessThan_Suc)
  have la: "length (BoneIDs ?a) = 4" "length (Weights ?a) = 4"
    and lc: "length (BoneIDs ?c) = 4" "length (Weights ?c) = 4"
    by simp_all
  have k: "2 \<in> {..<(4::nat)}" by simp
  have 1: "snd (find_lowest 4 (Weights ?a) 0 (Fin 1, -1)) \<noteq> int 2 \<and>
      BoneIDs (snd (AssignBoneInfluence 4 9 7 (Fin 3) ?a)) ! 2 = BoneIDs ?a ! 2 \<and>
      Weights (snd (AssignBoneInfluence 4 9 7 (Fin 3) ?a)) ! 2 = Weights ?a ! 2"
    using heavy_slots_never_evicted [OF la fa, of 9 7 "Fin 3"] ga k by blast
  have 2: "snd (AssignBoneInfluence 4 9 7 (Fin 3) ?c) = ?c"
    using heavy_slots_never_evicted [OF lc fc, of 9 7 "Fin 3"] gc by blast
  from 1 2 show ?thesis by simp
qed

subsection \<open>C2: bone registration\<close>

lemma RegisterBone_new:
  assumes "m_BoneDataMap m (C_Str (mName bone)) = None"
  shows "RegisterBone ext bone m =
    (m_BoneCount m,
     m\<lparr>m_BoneCount := m_BoneCount m + 1,
       m_BoneDataMap := (m_BoneDataMap m)(C_Str (mName bone) \<mapsto>
         \<lparr>boneID = m_BoneCount m,
          inverseBindPose = ConvertAssimpMatrixToGLM ext (mOffsetMatrix bone)\<rparr>)\<rparr>)"
  using assms by (simp add: RegisterBone_def)

lemma RegisterBone_known:
  assumes "m_BoneDataMap m (C_Str (mName bone)) = Some d"
  shows "RegisterBone ext bone m = (boneID d, m)"
  using assms by (simp add: RegisterBone_def)

lemma RegisterBone_stored:
  "\<exists>d. m_BoneDataMap (snd (RegisterBone ext bone m)) (C_Str (mName bone)) = Some d \<and>
       boneID d = fst (RegisterBone ext bone m)"
  by (cases "m_BoneDataMap m (C_Str (mName bone))") (simp_all add: RegisterBone_def)

lemma RegisterBone_keeps:
  assumes "m_BoneDataMap m name = Some d"
  shows "m_BoneDataMap (snd (RegisterBone ext bone m)) name = Some d"
  using assms
  by (cases "m_BoneDataMap m (C_Str (mName bone))") (auto simp add: RegisterBone_def)

lemma register_all_keeps:
  "m_BoneDataMap m name = Some d \<Longrightarrow> m_BoneDataMap (register_all ext bones m) name = Some d"
proof (induction bones arbitrary: m)
  case Nil
  then show ?case by (simp add: register_all_def)
next
  case (Cons bone bones)
  from Cons.prems have "m_BoneDataMap (snd (RegisterBone ext bone m)) name = Some d"
    by (rule RegisterBone_keeps)
  from Cons.IH [OF this] show ?case by (simp add: register_all_def)
qed

text \<open>
  C2. The counter of a new model is 0. Registering a name that the map does not hold
  returns the counter, increments it and stores the id with the converted offset matrix.
  Registering a name again, after any number of other registrations, returns the id of
  the first registration and leaves the model (counter and stored data) as it is.
\<close>

theorem bone_registration:
  "m_BoneCount (Model_new g) = 0 \<and>
   (m_BoneDataMap m (C_Str (mName bone)) = None \<longrightarrow>
      fst (RegisterBone ext bone m) = m_BoneCount m \<and>
      m_BoneCount (snd (RegisterBone ext bone m)) = m_BoneCount m + 1 \<and>
      m_BoneDataMap (snd (RegisterBone ext bone m)) =
        (m_BoneDataMap m)(C_Str (mName bone) \<mapsto>
          \<lparr>boneID = m_BoneCount m,
           inverseBindPose = ConvertAssimpMatrixToGLM ext (mOffsetMatrix bone)\<rparr>)) \<and>
   (C_Str (mName again) = C_Str (mName bone) \<longrightarrow>
      RegisterBone ext again (register_all ext others (snd (RegisterBone ext bone m))) =
        (fst (RegisterBone ext bone m),
         register_all ext others (snd (RegisterBone ext bone m))))"
proof (intro conjI impI)
  show "m_BoneCount (Model_new g) = 0" by (simp add: Model_new_def)
next
  assume n: "m_BoneDataMap m (C_Str (mName bone)) = None"
  show "fst (RegisterBone ext bone m) = m_BoneCount m"
    and "m_BoneCount (snd (RegisterBone ext bone m)) = m_BoneCount m + 1"
    and "m_BoneDataMap (snd (RegisterBone ext bone m)) =
        (m_BoneDataMap m)(C_Str (mName bone) \<mapsto>
          \<lparr>boneID = m_BoneCount m,
           inverseBindPose = ConvertAssimpMatrixToGLM ext (mOffsetMatrix bone)\<rparr>)"
    by (simp_all add: RegisterBone_new [OF n])
next
  assume same: "C_Str (mName again) = C_Str (mName bone)"
  obtain d where d: "m_BoneDataMap (snd (RegisterBone ext bone m)) (C_Str (mName bone)) = Some d"
    "boneID d = fst (RegisterBone ext bone m)"
    using RegisterBone_stored by blast
  from d(1) have "m_BoneDataMap (register_all ext others (snd (RegisterBone ext bone m)))
      (C_Str (mName again)) = Some d"
    unfolding same by (rule register_all_keeps)
  from RegisterBone_known [OF this] d(2)
  show "RegisterBone ext again (register_all ext others (snd (RegisterBone ext bone m))) =
        (fst (RegisterBone ext bone m),
         register_all ext others (snd (RegisterBone ext bone m)))"
    by simp
qed

theorem bone_registration_witness:
  "fst (RegisterBone example_ext \<lparr>mName = ''hip'', mOffsetMatrix = [], mWeights = []\<rparr>
          (Model_new [])) = 0 \<and>
   RegisterBone example_ext \<lparr>mName = ''hip'', mOffsetMatrix = [Fin 1], mWeights = []\<rparr>
     (register_all example_ext [\<lparr>mName = ''spine'', mOffsetMatrix = [], mWeights = []\<rparr>]
        (snd (RegisterBone example_ext \<lparr>mName = ''hip'', mOffsetMatrix = [], mWeights = []\<rparr>
               (Model_new [])))) =
     (0, register_all example_ext [\<lparr>mName = ''spine'', mOffsetMatrix = [], mWeights = []\<rparr>]
        (snd (RegisterBone example_ext \<lparr>mName = ''hip'', mOffsetMatrix = [], mWeights = []\<rparr>
               (Model_new []))))"
proof -
  let ?hip = "\<lparr>mName = ''hip'', mOffsetMatrix = [], mWeights = []\<rparr>"
  let ?hip2 = "\<lparr>mName = ''hip'', mOffsetMatrix = [Fin 1], mWeights = []\<rparr>"
  let ?spine = "\<lparr>mName = ''spine'', mOffsetMatrix = [], mWeights = []\<rparr>"
  note T = bone_registration [of "[]" "Model_new []" ?hip example_ext ?hip2 "[?spine]"]
  have e: "m_BoneDataMap (Model_new []) (C_Str (mName ?hip)) = None"
    by (simp add: Model_new_def)
  have s: "C_Str (mName ?hip2) = C_Str (mName ?hip)"
    by simp
  from T e have 1: "fst (RegisterBone example_ext ?hip (Model_new [])) = 0"
    by (simp add: Model_new_def)
  from T s have 2: "RegisterBone example_ext ?hip2
      (register_all example_ext [?spine] (snd (RegisterBone example_ext ?hip (Model_new [])))) =
     (fst (RegisterBone example_ext ?hip (Model_new [])),
      register_all example_ext [?spine] (snd (RegisterBone example_ext ?hip (Model_new []))))"
    by blast
  from 1 2 show ?thesis by simp
qed

subsection \<open>Results of the loops of ProcessMesh\<close>

lemma and_then_simps [simp]:
  "and_then (Inr a) f = f a"
  "and_then (Inl e) f = Inl e"
  by (simp_all add: and_then_def)

lemma and_then_eq_Inr: "and_then r f = Inr y \<longleftrightarrow> (\<exists>a. r = Inr a \<and> f a = Inr y)"
  by (cases r) auto

lemma read_at_eq_Inr: "read_at arr i = Inr a \<longleftrightarrow> (\<exists>xs. arr = Some xs \<and> i < length xs \<and> a = xs ! i)"
  by (auto simp: read_at_def split: option.splits)

lemma vertex_step_Inr:
  assumes "vertex_step M mesh i acc = Inr r"
  shows "r = acc\<lparr>positions := positions acc @ [the (mVertices mesh) ! i],
            uvs := uvs acc @ [uv_of mesh i],
            normals := normals acc @ [the (mNormals mesh) ! i],
            tangents := tangents acc @ [the (mTangents mesh) ! i],
            bitangents := bitangents acc @ [the (mBitangents mesh) ! i],
            boneWeights :=
              (if length (mBones mesh) > 0
               then (boneWeights acc)[i := cleared_slots M]
               else boneWeights acc)\<rparr>"
  using assms unfolding vertex_step_def uv_of_def
  by (auto simp: and_then_eq_Inr read_at_eq_Inr split: option.splits)

lemma process_vertices_result:
  "process_vertices M mesh i acc = Inr r \<Longrightarrow> i \<le> mNumVertices mesh \<Longrightarrow>
   length (positions r) = length (positions acc) + (mNumVertices mesh - i) \<and>
   length (normals r) = length (normals acc) + (mNumVertices mesh - i) \<and>
   length (tangents r) = length (tangents acc) + (mNumVertices mesh - i) \<and>
   length (bitangents r) = length (bitangents acc) + (mNumVertices mesh - i) \<and>
   uvs r = uvs acc @ map (uv_of mesh) [i..<mNumVertices mesh] \<and>
   length (boneWeights r) = length (boneWeights acc) \<and>
   (length (mBones mesh) > 0 \<longrightarrow>
      (\<forall>j. i \<le> j \<and> j < mNumVertices mesh \<and> j < length (boneWeights acc) \<longrightarrow>
           boneWeights r ! j = cleared_slots M)) \<and>
   (\<forall>j<i. boneWeights r ! j = boneWeights acc ! j) \<and>
   (length (mBones mesh) = 0 \<longrightarrow> boneWeights r = boneWeights acc) \<and>
   indices r = indices acc \<and> m_Material r = m_Material acc"
proof (induction M mesh i acc rule: process_vertices.induct)
  case (1 M mesh i acc)
  show ?case
  proof (cases "i < mNumVertices mesh")
    case False
    with 1 show ?thesis by (auto simp add: process_vertices.simps [of M mesh i acc])
  next
    case True
    with "1.prems" obtain acc' where s: "vertex_step M mesh i acc = Inr acc'"
      and p: "process_vertices M mesh (Suc i) acc' = Inr r"
      by (auto simp: process_vertices.simps [of M mesh i acc] and_then_eq_Inr)
    note acc' = vertex_step_Inr [OF s]
    from True have le: "Suc i \<le> mNumVertices mesh" by simp
    note IH = "1.IH" [OF True p le]
    have up: "[i..<mNumVertices mesh] = i # [Suc i..<mNumVertices mesh]"
      using True by (simp add: upt_conv_Cons)
    show ?thesis
    proof (intro conjI)
      show "length (positions r) = length (positions acc) + (mNumVertices mesh - i)"
        using IH True by (simp add: acc')
      show "length (normals r) = length (normals acc) + (mNumVertices mesh - i)"
        using IH True by (simp add: acc')
      show "length (tangents r) = length (tangents acc) + (mNumVertices mesh - i)"
        using IH True by (simp add: acc')
      show "length (bitangents r) = length (bitangents acc) + (mNumVertices mesh - i)"
        using IH True by (simp add: acc')
      show "uvs r = uvs acc @ map (uv_of mesh) [i..<mNumVertices mesh]"
        using IH by (simp add: acc' up)
      show "length (boneWeights r) = length (boneWeights acc)"
        using IH by (simp add: acc')
      show "length (mBones mesh) > 0 \<longrightarrow>
        (\<forall>j. i \<le> j \<and> j < mNumVertices mesh \<and> j < length (boneWeights acc) \<longrightarrow>
             boneWeights r ! j = cleared_slots M)"
      proof (intro impI allI)
        fix j assume b: "length (mBones mesh) > 0"
          and j: "i \<le> j \<and> j < mNumVertices mesh \<and> j < length (boneWeights acc)"
        show "boneWeights r ! j = cleared_slots M"
        proof (cases "j = i")
          case True
          with IH have "boneWeights r ! j = boneWeights acc' ! i" by simp
          with b j True show ?thesis by (simp add: acc')
        next
          case False
          with j have "Suc i \<le> j" by simp
          with IH b j show ?thesis by (simp add: acc')
        qed
      qed
      show "\<forall>j<i. boneWeights r ! j = boneWeights acc ! j"
        using IH by (simp add: acc')
      show "length (mBones mesh) = 0 \<longrightarrow> boneWeights r = boneWeights acc"
        using IH by (simp add: acc')
      show "indices r = indices acc" using IH by (simp add: acc')
      show "m_Material r = m_Material acc" using IH by (simp add: acc')
    qed
  qed
qed

lemma ProcessMesh_Inr:
  assumes "ProcessMesh ext mesh scene m = Inr (evs, m')"
  obtains vs rootNode ev1 m2 bw ev2 mat where
    "process_vertices (MaxBonesPerVertex ext) mesh 0
       (initial_vectors (MaxBonesPerVertex ext) mesh) = Inr vs"
    "mRootNode scene = Some rootNode"
    "process_bones ext (mNumVertices mesh) (mBones mesh)
       (m\<lparr>m_GlobalInverseTransform :=
            glm_inverse ext (ConvertAssimpMatrixToGLM ext (mTransformation rootNode))\<rparr>,
        boneWeights vs) = Inr (ev1, m2, bw)"
    "mMaterialIndex mesh < length (mMaterials scene)"
    "LoadMaterial ext m2 (mMaterials scene ! mMaterialIndex mesh) = (ev2, mat)"
    "evs = ev1 @ ev2"
    "m' = m2\<lparr>m_Meshes := m_Meshes m2 @
             [vs\<lparr>boneWeights := bw,
                 indices := process_faces (mFaces mesh) [],
                 m_Material := mat\<rparr>]\<rparr>"
proof -
  from assms obtain vs rootNode r where
    v: "process_vertices (MaxBonesPerVertex ext) mesh 0
       (initial_vectors (MaxBonesPerVertex ext) mesh) = Inr vs"
    and n: "mRootNode scene = Some rootNode"
    and b: "process_bones ext (mNumVertices mesh) (mBones mesh)
       (m\<lparr>m_GlobalInverseTransform :=
            glm_inverse ext (ConvertAssimpMatrixToGLM ext (mTransformation rootNode))\<rparr>,
        boneWeights vs) = Inr r"
    and i: "mMaterialIndex mesh < length (mMaterials scene)"
    and e: "evs = fst r @ fst (LoadMaterial ext (fst (snd r))
               (mMaterials scene ! mMaterialIndex mesh))"
    and m: "m' = (fst (snd r))\<lparr>m_Meshes := m_Meshes (fst (snd r)) @
             [vs\<lparr>boneWeights := snd (snd r),
                 indices := process_faces (mFaces mesh) [],
                 m_Material := snd (LoadMaterial ext (fst (snd r))
                   (mMaterials scene ! mMaterialIndex mesh))\<rparr>]\<rparr>"
    unfolding ProcessMesh_def
    by (auto simp: and_then_eq_Inr read_at_eq_Inr case_prod_beta split: option.splits)
  show thesis
    by (rule that [of vs rootNode "fst r" "fst (snd r)" "snd (snd r)"
          "fst (LoadMaterial ext (fst (snd r)) (mMaterials scene ! mMaterialIndex mesh))"
          "snd (LoadMaterial ext (fst (snd r)) (mMaterials scene ! mMaterialIndex mesh))"])
       (simp_all add: v n b i e m)
qed

lemma process_weights_length:
  "process_weights M n b ws bw = Inr (evs, bw') \<Longrightarrow> length bw' = length bw"
proof (induction ws arbitrary: bw evs bw')
  case Nil
  then show ?case by simp
next
  case (Cons wt ws)
  then show ?case
    by (auto simp: Let_def and_then_eq_Inr split: if_splits prod.splits)
qed

lemma RegisterBone_frame:
  "m_Meshes (snd (RegisterBone ext bone m)) = m_Meshes m \<and>
   m_Directory (snd (RegisterBone ext bone m)) = m_Directory m \<and>
   m_Name (snd (RegisterBone ext bone m)) = m_Name m \<and>
   m_GlobalInverseTransform (snd (RegisterBone ext bone m)) = m_GlobalInverseTransform m"
  by (simp add: RegisterBone_def Let_def split: option.splits)

lemma process_bones_frame:
  "process_bones ext n bones (m, bw) = Inr (evs, m', bw') \<Longrightarrow>
   length bw' = length bw \<and> m_Meshes m' = m_Meshes m \<and> m_Directory m' = m_Directory m \<and>
   m_Name m' = m_Name m \<and> m_GlobalInverseTransform m' = m_GlobalInverseTransform m"
proof (induction bones arbitrary: m bw evs m' bw')
  case Nil
  then show ?case by simp
next
  case (Cons bone bones)
  obtain b m1 where r: "RegisterBone ext bone m = (b, m1)"
    by (cases "RegisterBone ext bone m") auto
  from Cons.prems r obtain ev bw1 evs1 where
    w: "process_weights (MaxBonesPerVertex ext) n b (mWeights bone) bw = Inr (ev, bw1)"
    and p: "process_bones ext n bones (m1, bw1) = Inr (evs1, m', bw')"
    by (auto simp: and_then_eq_Inr split: if_splits prod.splits)
  from RegisterBone_frame [of ext bone m] r Cons.IH [OF p] process_weights_length [OF w]
  show ?case by simp
qed

text \<open>
  ProcessMesh returns for a mesh whose per-vertex arrays are present and long enough,
  whose weights name vertices of the mesh and whose material exists, on a model whose
  counter and stored bone ids are not negative.
\<close>

lemma process_vertices_returns:
  assumes "\<exists>xs. mVertices mesh = Some xs \<and> mNumVertices mesh \<le> length xs"
    and "\<exists>xs. mNormals mesh = Some xs \<and> mNumVertices mesh \<le> length xs"
    and "\<exists>xs. mTangents mesh = Some xs \<and> mNumVertices mesh \<le> length xs"
    and "\<exists>xs. mBitangents mesh = Some xs \<and> mNumVertices mesh \<le> length xs"
    and "\<forall>tc. mTextureCoords0 mesh = Some tc \<longrightarrow> mNumVertices mesh \<le> length tc"
  shows "\<exists>r. process_vertices M mesh i acc = Inr r"
proof (induction "mNumVertices mesh - i" arbitrary: i acc)
  case 0
  then show ?case by (simp add: process_vertices.simps [of M mesh i acc])
next
  case (Suc d)
  then have lt: "i < mNumVertices mesh" and d: "d = mNumVertices mesh - Suc i" by simp_all
  from assms lt obtain acc' where s: "vertex_step M mesh i acc = Inr acc'"
    unfolding vertex_step_def
    by (cases "mTextureCoords0 mesh") (auto simp: read_at_def)
  from Suc.hyps(1) [OF d, of acc'] s lt show ?case
    by (simp add: process_vertices.simps [of M mesh i acc])
qed

lemma process_weights_returns:
  "(\<forall>wt\<in>set ws. mVertexId wt < n) \<Longrightarrow> length bw = n \<Longrightarrow>
   \<exists>evs bw'. process_weights M n b ws bw = Inr (evs, bw') \<and> length bw' = n"
proof (induction ws arbitrary: bw)
  case Nil
  then show ?case by simp
next
  case (Cons wt ws)
  let ?bw1 = "bw[mVertexId wt :=
      snd (AssignBoneInfluence M (mVertexId wt) b (mWeight wt) (bw ! mVertexId wt))]"
  from Cons.prems have "\<forall>wt\<in>set ws. mVertexId wt < n" and "length ?bw1 = n" by simp_all
  from Cons.IH [OF this] obtain evs bw' where
    "process_weights M n b ws ?bw1 = Inr (evs, bw')" "length bw' = n" by blast
  with Cons.prems show ?case by (simp add: Let_def case_prod_beta)
qed

lemma process_bones_returns:
  "(\<forall>bone\<in>set bones. \<forall>wt\<in>set (mWeights bone). mVertexId wt < n) \<Longrightarrow> length bw = n \<Longrightarrow>
   0 \<le> m_BoneCount m \<Longrightarrow> (\<forall>name d. m_BoneDataMap m name = Some d \<longrightarrow> 0 \<le> boneID d) \<Longrightarrow>
   \<exists>r. process_bones ext n bones (m, bw) = Inr r"
proof (induction bones arbitrary: m bw)
  case Nil
  then show ?case by simp
next
  case (Cons bone bones)
  obtain b m1 where reg: "RegisterBone ext bone m = (b, m1)"
    by (cases "RegisterBone ext bone m") auto
  have b0: "0 \<le> b" and c1: "0 \<le> m_BoneCount m1"
    and s1: "\<forall>name d. m_BoneDataMap m1 name = Some d \<longrightarrow> 0 \<le> boneID d"
    using reg Cons.prems(3,4)
    by (auto simp: RegisterBone_def Let_def split: option.splits if_splits)
  from Cons.prems(1,2) obtain ev bw1 where
    w: "process_weights (MaxBonesPerVertex ext) n b (mWeights bone) bw = Inr (ev, bw1)"
    and l1: "length bw1 = n"
    using process_weights_returns [of "mWeights bone" n bw "MaxBonesPerVertex ext" b] by auto
  from Cons.prems(1) have "\<forall>bone\<in>set bones. \<forall>wt\<in>set (mWeights bone). mVertexId wt < n"
    by simp
  from Cons.IH [OF this l1 c1 s1] obtain r where
    "process_bones ext n bones (m1, bw1) = Inr r" by blast
  with reg b0 w show ?case by (simp add: case_prod_beta)
qed

lemma ProcessMesh_returns:
  assumes "\<exists>xs. mVertices mesh = Some xs \<and> mNumVertices mesh \<le> length xs"
    and "\<exists>xs. mNormals mesh = Some xs \<and> mNumVertices mesh \<le> length xs"
    and "\<exists>xs. mTangents mesh = Some xs \<and> mNumVertices mesh \<le> length xs"
    and "\<exists>xs. mBitangents mesh = Some xs \<and> mNumVertices mesh \<le> length xs"
    and "\<forall>tc. mTextureCoords0 mesh = Some tc \<longrightarrow> mNumVertices mesh \<le> length tc"
    and "\<forall>bone\<in>set (mBones mesh). \<forall>wt\<in>set (mWeights bone). mVertexId wt < mNumVertices mesh"
    and "mRootNode scene \<noteq> None"
    and "mMaterialIndex mesh < length (mMaterials scene)"
    and "0 \<le> m_BoneCount m"
    and "\<forall>name d. m_BoneDataMap m name = Some d \<longrightarrow> 0 \<le> boneID d"
  shows "\<exists>r. ProcessMesh ext mesh scene m = Inr r"
proof -
  let ?M = "MaxBonesPerVertex ext"
  from process_vertices_returns [OF assms(1-5)] obtain vs where
    v: "process_vertices ?M mesh 0 (initial_vectors ?M mesh) = Inr vs" by blast
  from assms(7) obtain rootNode where n: "mRootNode scene = Some rootNode" by auto
  let ?m1 = "m\<lparr>m_GlobalInverseTransform :=
      glm_inverse ext (ConvertAssimpMatrixToGLM ext (mTransformation rootNode))\<rparr>"
  have "\<exists>r. process_bones ext (mNumVertices mesh) (mBones mesh) (?m1, boneWeights vs) = Inr r"
  proof (cases "mBones mesh")
    case Nil
    then show ?thesis by simp
  next
    case (Cons bone bones)
    with process_vertices_result [OF v]
    have "length (boneWeights vs) = mNumVertices mesh"
      by (simp add: initial_vectors_def)
    from process_bones_returns [OF assms(6) this, of ?m1 ext] assms(9,10)
    show ?thesis by simp
  qed
  then obtain r where
    b: "process_bones ext (mNumVertices mesh) (mBones mesh) (?m1, boneWeights vs) = Inr r"
    by blast
  show ?thesis
    unfolding ProcessMesh_def using v n b assms(8)
    by (simp add: read_at_def case_prod_beta)
qed

lemma Inr_projr: "\<not> isl r \<Longrightarrow> r = Inr (fst (projr r), snd (projr r))"
  by (cases r) auto

subsection \<open>C4: lengths of the sequences of a mesh\<close>

text \<open>
  C4. When ProcessMesh returns, it has appended one mesh to the model; its positions,
  uvs, normals, tangents and bitangents all have the length \<^verbatim>\<open>mNumVertices\<close>; its
  bone-influence sequence has that length when the mesh has a bone, and is empty when it
  has none. With no bone the loop over the bones returns at once, with no event and its
  state untouched, so no influence is assigned and the bone map and counter are as before.
\<close>

theorem mesh_sequence_lengths:
  assumes "ProcessMesh ext mesh scene m = Inr (evs, m')"
  shows "m_Meshes m' = m_Meshes m @ [new_mesh m'] \<and>
         length (positions (new_mesh m')) = mNumVertices mesh \<and>
         length (uvs (new_mesh m')) = mNumVertices mesh \<and>
         length (normals (new_mesh m')) = mNumVertices mesh \<and>
         length (tangents (new_mesh m')) = mNumVertices mesh \<and>
         length (bitangents (new_mesh m')) = mNumVertices mesh \<and>
         (length (mBones mesh) > 0 \<longrightarrow>
            length (boneWeights (new_mesh m')) = mNumVertices mesh) \<and>
         (length (mBones mesh) = 0 \<longrightarrow>
            boneWeights (new_mesh m') = [] \<and>
            (\<forall>s. process_bones ext (mNumVertices mesh) (mBones mesh) s = Inr ([], s)) \<and>
            m_BoneDataMap m' = m_BoneDataMap m \<and> m_BoneCount m' = m_BoneCount m)"
proof -
  from assms obtain vs rootNode ev1 m2 bw ev2 mat where
    v: "process_vertices (MaxBonesPerVertex ext) mesh 0
       (initial_vectors (MaxBonesPerVertex ext) mesh) = Inr vs"
    and b: "process_bones ext (mNumVertices mesh) (mBones mesh)
       (m\<lparr>m_GlobalInverseTransform :=
            glm_inverse ext (ConvertAssimpMatrixToGLM ext (mTransformation rootNode))\<rparr>,
        boneWeights vs) = Inr (ev1, m2, bw)"
    and m': "m' = m2\<lparr>m_Meshes := m_Meshes m2 @
             [vs\<lparr>boneWeights := bw,
                 indices := process_faces (mFaces mesh) [],
                 m_Material := mat\<rparr>]\<rparr>"
    by (rule ProcessMesh_Inr)
  note V = process_vertices_result [OF v, simplified]
  note B = process_bones_frame [OF b]
  have nm: "new_mesh m' = vs\<lparr>boneWeights := bw,
                 indices := process_faces (mFaces mesh) [], m_Material := mat\<rparr>"
    by (simp add: new_mesh_def m')
  have e: "\<forall>s. process_bones ext (mNumVertices mesh) [] s = Inr ([], s)"
    by auto
  show ?thesis
  proof (intro conjI impI)
    show "m_Meshes m' = m_Meshes m @ [new_mesh m']"
      using B by (simp add: nm) (simp add: m')
    show "length (positions (new_mesh m')) = mNumVertices mesh"
      using V by (simp add: nm initial_vectors_def)
    show "length (uvs (new_mesh m')) = mNumVertices mesh"
      using V by (simp add: nm initial_vectors_def)
    show "length (normals (new_mesh m')) = mNumVertices mesh"
      using V by (simp add: nm initial_vectors_def)
    show "length (tangents (new_mesh m')) = mNumVertices mesh"
      using V by (simp add: nm initial_vectors_def)
    show "length (bitangents (new_mesh m')) = mNumVertices mesh"
      using V by (simp add: nm initial_vectors_def)
    show "length (boneWeights (new_mesh m')) = mNumVertices mesh"
      if "length (mBones mesh) > 0"
      using V B that by (simp add: nm initial_vectors_def)
    show "boneWeights (new_mesh m') = []" if "length (mBones mesh) = 0"
      using V B that by (simp add: nm initial_vectors_def)
    show "\<forall>s. process_bones ext (mNumVertices mesh) (mBones mesh) s = Inr ([], s)"
      if "length (mBones mesh) = 0"
      using that e by simp
    show "m_BoneDataMap m' = m_BoneDataMap m" if "length (mBones mesh) = 0"
      using that b by (auto simp: m')
    show "m_BoneCount m' = m_BoneCount m" if "length (mBones mesh) = 0"
      using that b by (auto simp: m')
  qed
qed

theorem mesh_sequence_lengths_witness:
  "length (positions (new_mesh (snd (projr (load_quad plain_quad))))) = 4 \<and>
   length (uvs (new_mesh (snd (projr (load_quad plain_quad))))) = 4 \<and>
   boneWeights (new_mesh (snd (projr (load_quad plain_quad)))) = [] \<and>
   length (boneWeights (new_mesh (snd (projr (load_quad skinned_quad))))) = 4"
proof -
  have "\<not> isl (load_quad plain_quad)" by code_simp
  then have p: "ProcessMesh example_ext plain_quad (one_mesh_scene plain_quad no_textures)
      (Model_new []) =
      Inr (fst (projr (load_quad plain_quad)), snd (projr (load_quad plain_quad)))"
    unfolding load_quad_def by (rule Inr_projr)
  have "\<not> isl (load_quad skinned_quad)" by code_simp
  then have s: "ProcessMesh example_ext skinned_quad (one_mesh_scene skinned_quad no_textures)
      (Model_new []) =
      Inr (fst (projr (load_quad skinned_quad)), snd (projr (load_quad skinned_quad)))"
    unfolding load_quad_def by (rule Inr_projr)
  have bp: "length (mBones plain_quad) = 0" and bs: "length (mBones skinned_quad) > 0"
    and n: "mNumVertices plain_quad = 4" "mNumVertices skinned_quad = 4"
    by (simp_all add: plain_quad_def skinned_quad_def quad_mesh_def two_bones_def)
  from mesh_sequence_lengths [OF p] mesh_sequence_lengths [OF s] bp bs n
  show ?thesis by simp
qed

subsection \<open>C9: texture coordinates\<close>

text \<open>
  C9. When ProcessMesh returns, the new mesh has one UV per vertex; every one of them is
  (0,0) when the source mesh has no texture-coordinate channel, and is the x and y of
  the first channel's coordinate of that vertex when it has one.
\<close>

theorem uv_fallback:
  assumes "ProcessMesh ext mesh scene m = Inr (evs, m')"
  shows "length (uvs (new_mesh m')) = mNumVertices mesh \<and>
         (mTextureCoords0 mesh = None \<longrightarrow>
            (\<forall>i\<in>{..<mNumVertices mesh}. uvs (new_mesh m') ! i = (Fin 0, Fin 0))) \<and>
         (\<forall>tc. mTextureCoords0 mesh = Some tc \<longrightarrow>
            (\<forall>i\<in>{..<mNumVertices mesh}.
               uvs (new_mesh m') ! i = (fst (tc ! i), fst (snd (tc ! i)))))"
proof -
  from assms obtain vs m2 bw mat where
    v: "process_vertices (MaxBonesPerVertex ext) mesh 0
       (initial_vectors (MaxBonesPerVertex ext) mesh) = Inr vs"
    and m': "m' = m2\<lparr>m_Meshes := m_Meshes m2 @
             [vs\<lparr>boneWeights := bw,
                 indices := process_faces (mFaces mesh) [],
                 m_Material := mat\<rparr>]\<rparr>"
    by (rule ProcessMesh_Inr)
  from process_vertices_result [OF v]
  have u: "uvs (new_mesh m') = map (uv_of mesh) [0..<mNumVertices mesh]"
    by (simp add: new_mesh_def m' initial_vectors_def)
  show ?thesis
    unfolding u by (simp add: uv_of_def)
qed

theorem uv_fallback_witness:
  "uvs (new_mesh (snd (projr (load_quad plain_quad)))) ! 2 = (Fin 0, Fin 0) \<and>
   uvs (new_mesh (snd (projr (load_quad skinned_quad)))) ! 2 = (Fin 1, Fin 1)"
proof -
  have "\<not> isl (load_quad plain_quad)" by code_simp
  then have p: "ProcessMesh example_ext plain_quad (one_mesh_scene plain_quad no_textures)
      (Model_new []) =
      Inr (fst (projr (load_quad plain_quad)), snd (projr (load_quad plain_quad)))"
    unfolding load_quad_def by (rule Inr_projr)
  have "\<not> isl (load_quad skinned_quad)" by code_simp
  then have s: "ProcessMesh example_ext skinned_quad (one_mesh_scene skinned_quad no_textures)
      (Model_new []) =
      Inr (fst (projr (load_quad skinned_quad)), snd (projr (load_quad skinned_quad)))"
    unfolding load_quad_def by (rule Inr_projr)
  have tp: "mTextureCoords0 plain_quad = None"
    and ts: "mTextureCoords0 skinned_quad =
      Some [(Fin 0, Fin 0, Fin 0), (Fin 1, Fin 0, Fin 0),
            (Fin 1, Fin 1, Fin 0), (Fin 0, Fin 1, Fin 0)]"
    and n: "2 \<in> {..<mNumVertices plain_quad}" "2 \<in> {..<mNumVertices skinned_quad}"
    by (simp_all add: plain_quad_def skinned_quad_def quad_mesh_def)
  from uv_fallback [OF p] tp n(1)
  have 1: "uvs (new_mesh (snd (projr (load_quad plain_quad)))) ! 2 = (Fin 0, Fin 0)"
    by blast
  from uv_fallback [OF s] ts n(2)
  have 2: "uvs (new_mesh (snd (projr (load_quad skinned_quad)))) ! 2 =
      (fst ([(Fin 0, Fin 0, Fin 0), (Fin 1, Fin 0, Fin 0),
            (Fin 1, Fin 1, Fin 0), (Fin 0, Fin 1, Fin 0)] ! 2),
       fst (snd ([(Fin 0, Fin 0, Fin 0), (Fin 1, Fin 0, Fin 0),
            (Fin 1, Fin 1, Fin 0), (Fin 0, Fin 1, Fin 0)] ! 2)))"
    by blast
  from 1 2 show ?thesis by simp
qed

subsection \<open>C5: indices\<close>

lemma push_face_indices_append: "push_face_indices js out = out @ js"
  by (induction js arbitrary: out) auto

lemma process_faces_concat: "process_faces faces out = out @ concat (map mIndices faces)"
  by (induction faces arbitrary: out) (auto simp: push_face_indices_append)

lemma length_concat_triangles:
  "(\<forall>f\<in>set faces. length (mIndices f) = 3) \<Longrightarrow>
   length (concat (map mIndices faces)) = 3 * length faces"
  by (induction faces) auto

text \<open>
  C5, as the code has it. When ProcessMesh returns, the indices of the new mesh are the
  indices of the faces, in face order and in index order within a face. When every face
  has three indices their number is three times the number of faces; the indices are
  copied unchecked, so they are below the vertex count when those of the source faces
  are. The claim as written promises the bound for every triangulated mesh.
\<close>

theorem index_builder:
  assumes "ProcessMesh ext mesh scene m = Inr (evs, m')"
  shows "indices (new_mesh m') = concat (map mIndices (mFaces mesh)) \<and>
   ((\<forall>face\<in>set (mFaces mesh). length (mIndices face) = 3) \<longrightarrow>
      length (indices (new_mesh m')) = 3 * length (mFaces mesh) \<and>
      3 dvd length (indices (new_mesh m')) \<and>
      ((\<forall>face\<in>set (mFaces mesh). \<forall>j\<in>set (mIndices face). j < mNumVertices mesh) \<longrightarrow>
         (\<forall>j\<in>set (indices (new_mesh m')). j < mNumVertices mesh)))"
proof -
  from assms obtain vs m2 bw mat where
    m': "m' = m2\<lparr>m_Meshes := m_Meshes m2 @
             [vs\<lparr>boneWeights := bw,
                 indices := process_faces (mFaces mesh) [],
                 m_Material := mat\<rparr>]\<rparr>"
    by (rule ProcessMesh_Inr)
  have i: "indices (new_mesh m') = concat (map mIndices (mFaces mesh))"
    by (simp add: new_mesh_def m' process_faces_concat)
  show ?thesis
    unfolding i by (auto simp: length_concat_triangles)
qed

theorem index_builder_witness:
  "indices (new_mesh (snd (projr (load_quad plain_quad)))) = [0, 1, 2, 2, 3, 0] \<and>
   length (indices (new_mesh (snd (projr (load_quad plain_quad))))) = 3 * 2 \<and>
   list_all (\<lambda>j. j < 4) (indices (new_mesh (snd (projr (load_quad plain_quad)))))"
proof -
  have "\<not> isl (load_quad plain_quad)" by code_simp
  then have p: "ProcessMesh example_ext plain_quad (one_mesh_scene plain_quad no_textures)
      (Model_new []) =
      Inr (fst (projr (load_quad plain_quad)), snd (projr (load_quad plain_quad)))"
    unfolding load_quad_def by (rule Inr_projr)
  have f: "mFaces plain_quad = [\<lparr>mIndices = [0, 1, 2]\<rparr>, \<lparr>mIndices = [2, 3, 0]\<rparr>]"
    and n: "mNumVertices plain_quad = 4"
    by (simp_all add: plain_quad_def quad_mesh_def two_triangles_def)
  have t: "\<forall>face\<in>set (mFaces plain_quad). length (mIndices face) = 3"
    and b: "\<forall>face\<in>set (mFaces plain_quad). \<forall>j\<in>set (mIndices face). j < mNumVertices plain_quad"
    unfolding f n by simp_all
  from index_builder [OF p] t b
  have "indices (new_mesh (snd (projr (load_quad plain_quad)))) =
      concat (map mIndices (mFaces plain_quad)) \<and>
    length (indices (new_mesh (snd (projr (load_quad plain_quad))))) =
      3 * length (mFaces plain_quad) \<and>
    (\<forall>j\<in>set (indices (new_mesh (snd (projr (load_quad plain_quad))))).
       j < mNumVertices plain_quad)"
    by blast
  then show ?thesis
    unfolding f n by (simp add: list_all_iff)
qed

text \<open>
  C5 as written fails: every face has three indices, yet the index 7 is emitted for a
  mesh of four vertices.
\<close>

theorem index_builder_counterexample:
  "\<not> isl (load_quad (quad_mesh None [] [\<lparr>mIndices = [0, 1, 7]\<rparr>])) \<and>
   mNumVertices (quad_mesh None [] [\<lparr>mIndices = [0, 1, 7]\<rparr>]) = 4 \<and>
   map length (map mIndices (mFaces (quad_mesh None [] [\<lparr>mIndices = [0, 1, 7]\<rparr>]))) = [3] \<and>
   indices (new_mesh (snd (projr (load_quad (quad_mesh None [] [\<lparr>mIndices = [0, 1, 7]\<rparr>]))))) =
     [0, 1, 7] \<and>
   \<not> 7 < mNumVertices (quad_mesh None [] [\<lparr>mIndices = [0, 1, 7]\<rparr>])"
  by code_simp

subsection \<open>C6: textures of the material\<close>

lemma LoadMaterialTexture_many:
  assumes "length (textures mat type) > 1"
  shows "LoadMaterialTexture ext m mat type srgb =
    ([WarnTextureCount, LoadTexture (texture_file m mat type) \<lparr>IsSRGB = srgb\<rparr>],
     Load2DTextureAsync ext (texture_file m mat type) \<lparr>IsSRGB = srgb\<rparr>)"
  using assms
  by (cases "textures mat type")
     (simp_all add: LoadMaterialTexture_def GetTextureCount_def GetTexture_def texture_file_def
       Let_def)

lemma LoadMaterialTexture_one:
  assumes "length (textures mat type) = 1"
  shows "LoadMaterialTexture ext m mat type srgb =
    ([LoadTexture (texture_file m mat type) \<lparr>IsSRGB = srgb\<rparr>],
     Load2DTextureAsync ext (texture_file m mat type) \<lparr>IsSRGB = srgb\<rparr>)"
  using assms
  by (cases "textures mat type")
     (simp_all add: LoadMaterialTexture_def GetTextureCount_def GetTexture_def texture_file_def
       Let_def)

lemma LoadMaterialTexture_none:
  assumes "textures mat type = []"
  shows "LoadMaterialTexture ext m mat type srgb = ([], None)"
  using assms by (simp add: LoadMaterialTexture_def GetTextureCount_def)

lemma LoadMaterialTexture_directory:
  "m_Directory m2 = m_Directory m \<Longrightarrow>
   LoadMaterialTexture ext m2 mat type srgb = LoadMaterialTexture ext m mat type srgb"
  by (simp add: LoadMaterialTexture_def)

lemma LoadMaterial_directory:
  "m_Directory m2 = m_Directory m \<Longrightarrow> LoadMaterial ext m2 mat = LoadMaterial ext m mat"
  by (simp add: LoadMaterial_def LoadMaterialTexture_directory [of m2 m])

lemma LoadMaterial_channels:
  "LoadMaterial ext m mat =
     (fst (LoadMaterialTexture ext m mat aiTextureType_DIFFUSE True) @
      fst (LoadMaterialTexture ext m mat aiTextureType_NORMALS False) @
      fst (LoadMaterialTexture ext m mat aiTextureType_AMBIENT False) @
      fst (LoadMaterialTexture ext m mat aiTextureType_DISPLACEMENT False),
      \<lparr>AlbedoMap = snd (LoadMaterialTexture ext m mat aiTextureType_DIFFUSE True),
       NormalMap = snd (LoadMaterialTexture ext m mat aiTextureType_NORMALS False),
       AmbientOcclusionMap = snd (LoadMaterialTexture ext m mat aiTextureType_AMBIENT False),
       DisplacementMap = snd (LoadMaterialTexture ext m mat aiTextureType_DISPLACEMENT False)\<rparr>)"
  by (simp add: LoadMaterial_def case_prod_beta)

lemma ProcessMesh_material:
  assumes "ProcessMesh ext mesh scene m = Inr (evs, m')"
  shows "m_Material (new_mesh m') =
           snd (LoadMaterial ext m (mMaterials scene ! mMaterialIndex mesh)) \<and>
         (\<exists>ev1. evs = ev1 @ fst (LoadMaterial ext m (mMaterials scene ! mMaterialIndex mesh)))"
proof -
  from assms obtain vs rootNode ev1 m2 bw ev2 mat where
    b: "process_bones ext (mNumVertices mesh) (mBones mesh)
       (m\<lparr>m_GlobalInverseTransform :=
            glm_inverse ext (ConvertAssimpMatrixToGLM ext (mTransformation rootNode))\<rparr>,
        boneWeights vs) = Inr (ev1, m2, bw)"
    and l: "LoadMaterial ext m2 (mMaterials scene ! mMaterialIndex mesh) = (ev2, mat)"
    and e: "evs = ev1 @ ev2"
    and m': "m' = m2\<lparr>m_Meshes := m_Meshes m2 @
             [vs\<lparr>boneWeights := bw,
                 indices := process_faces (mFaces mesh) [],
                 m_Material := mat\<rparr>]\<rparr>"
    by (rule ProcessMesh_Inr)
  from process_bones_frame [OF b] have "m_Directory m2 = m_Directory m" by simp
  from LoadMaterial_directory [OF this] l
  have "LoadMaterial ext m (mMaterials scene ! mMaterialIndex mesh) = (ev2, mat)" by simp
  then show ?thesis by (simp add: new_mesh_def m' e)
qed

text \<open>
  C6. For a texture type of the material: with more than one texture, one warning is
  logged and the file of the first texture is requested; with exactly one, that file is
  requested and nothing is logged; with none, nothing is logged or requested and the
  handle is null. The material of the new mesh takes the diffuse type as albedo with
  sRGB set, and the normals, ambient and displacement types with sRGB not set; the
  events of the four calls end the events of ProcessMesh, in that order.
\<close>

theorem material_resolution:
  "(length (textures mat type) > 1 \<longrightarrow>
      LoadMaterialTexture ext m mat type srgb =
        ([WarnTextureCount, LoadTexture (texture_file m mat type) \<lparr>IsSRGB = srgb\<rparr>],
         Load2DTextureAsync ext (texture_file m mat type) \<lparr>IsSRGB = srgb\<rparr>)) \<and>
   (length (textures mat type) = 1 \<longrightarrow>
      LoadMaterialTexture ext m mat type srgb =
        ([LoadTexture (texture_file m mat type) \<lparr>IsSRGB = srgb\<rparr>],
         Load2DTextureAsync ext (texture_file m mat type) \<lparr>IsSRGB = srgb\<rparr>)) \<and>
   (textures mat type = [] \<longrightarrow> LoadMaterialTexture ext m mat type srgb = ([], None)) \<and>
   LoadMaterial ext m mat =
     (fst (LoadMaterialTexture ext m mat aiTextureType_DIFFUSE True) @
      fst (LoadMaterialTexture ext m mat aiTextureType_NORMALS False) @
      fst (LoadMaterialTexture ext m mat aiTextureType_AMBIENT False) @
      fst (LoadMaterialTexture ext m mat aiTextureType_DISPLACEMENT False),
      \<lparr>AlbedoMap = snd (LoadMaterialTexture ext m mat aiTextureType_DIFFUSE True),
       NormalMap = snd (LoadMaterialTexture ext m mat aiTextureType_NORMALS False),
       AmbientOcclusionMap = snd (LoadMaterialTexture ext m mat aiTextureType_AMBIENT False),
       DisplacementMap = snd (LoadMaterialTexture ext m mat aiTextureType_DISPLACEMENT False)\<rparr>) \<and>
   (ProcessMesh ext mesh scene m = Inr (evs, m') \<longrightarrow>
      m_Material (new_mesh m') =
        snd (LoadMaterial ext m (mMaterials scene ! mMaterialIndex mesh)) \<and>
      (\<exists>ev1. evs = ev1 @ fst (LoadMaterial ext m (mMaterials scene ! mMaterialIndex mesh))))"
  using LoadMaterialTexture_many [of mat type ext m srgb]
    LoadMaterialTexture_one [of mat type ext m srgb]
    LoadMaterialTexture_none [of mat type ext m srgb]
    LoadMaterial_channels [of ext m mat]
    ProcessMesh_material [of ext mesh scene m evs m']
  by blast


theorem material_resolution_witness:
  "LoadMaterialTexture example_ext ((Model_new [])\<lparr>m_Directory := ''res''\<rparr>) two_albedo
     aiTextureType_DIFFUSE True =
     ([WarnTextureCount, LoadTexture ''res/a.png'' \<lparr>IsSRGB = True\<rparr>], Some 9) \<and>
   LoadMaterialTexture example_ext ((Model_new [])\<lparr>m_Directory := ''res''\<rparr>) two_albedo
     aiTextureType_NORMALS False =
     ([LoadTexture ''res/n.png'' \<lparr>IsSRGB = False\<rparr>], Some 9) \<and>
   LoadMaterialTexture example_ext ((Model_new [])\<lparr>m_Directory := ''res''\<rparr>) two_albedo
     aiTextureType_AMBIENT False = ([], None) \<and>
   m_Material (new_mesh (snd (projr
     (ProcessMesh example_ext plain_quad (one_mesh_scene plain_quad two_albedo)
        ((Model_new [])\<lparr>m_Directory := ''res''\<rparr>))))) =
     \<lparr>AlbedoMap = Some 9, NormalMap = Some 9,
      AmbientOcclusionMap = None, DisplacementMap = None\<rparr>"
proof -
  let ?m = "(Model_new [])\<lparr>m_Directory := ''res''\<rparr>"
  let ?scene = "one_mesh_scene plain_quad two_albedo"
  let ?R = "ProcessMesh example_ext plain_quad ?scene ?m"
  have d: "length (textures two_albedo aiTextureType_DIFFUSE) > 1"
    and n: "length (textures two_albedo aiTextureType_NORMALS) = 1"
    and a: "textures two_albedo aiTextureType_AMBIENT = []"
    and h: "textures two_albedo aiTextureType_DISPLACEMENT = []"
    by (simp_all add: two_albedo_def)
  have "\<not> isl ?R" by code_simp
  then have r: "?R = Inr (fst (projr ?R), snd (projr ?R))" by (rule Inr_projr)
  have f: "texture_file ?m two_albedo aiTextureType_DIFFUSE = ''res/a.png''"
    "texture_file ?m two_albedo aiTextureType_NORMALS = ''res/n.png''"
    by (simp_all add: texture_file_def two_albedo_def C_Str_def)
  have s: "mMaterials ?scene ! mMaterialIndex plain_quad = two_albedo"
    by (simp add: one_mesh_scene_def plain_quad_def quad_mesh_def)
  note T = material_resolution [of two_albedo _ example_ext ?m _ plain_quad ?scene
      "fst (projr ?R)" "snd (projr ?R)"]
  have 1: "LoadMaterialTexture example_ext ?m two_albedo aiTextureType_DIFFUSE True =
     ([WarnTextureCount, LoadTexture ''res/a.png'' \<lparr>IsSRGB = True\<rparr>], Some 9)"
    using T [of aiTextureType_DIFFUSE True] d by (simp add: f example_ext_def)
  have 2: "LoadMaterialTexture example_ext ?m two_albedo aiTextureType_NORMALS False =
     ([LoadTexture ''res/n.png'' \<lparr>IsSRGB = False\<rparr>], Some 9)"
    using T [of aiTextureType_NORMALS False] n by (simp add: f example_ext_def)
  have 3: "LoadMaterialTexture example_ext ?m two_albedo aiTextureType_AMBIENT False = ([], None)"
    using T [of aiTextureType_AMBIENT False] a by simp
  have 4: "LoadMaterialTexture example_ext ?m two_albedo aiTextureType_DISPLACEMENT False =
      ([], None)"
    using T [of aiTextureType_DISPLACEMENT False] h by simp
  have "m_Material (new_mesh (snd (projr ?R))) = snd (LoadMaterial example_ext ?m two_albedo)"
    using T [of aiTextureType_DIFFUSE True] r s by simp
  moreover have "LoadMaterial example_ext ?m two_albedo =
     (fst (LoadMaterialTexture example_ext ?m two_albedo aiTextureType_DIFFUSE True) @
      fst (LoadMaterialTexture example_ext ?m two_albedo aiTextureType_NORMALS False) @
      fst (LoadMaterialTexture example_ext ?m two_albedo aiTextureType_AMBIENT False) @
      fst (LoadMaterialTexture example_ext ?m two_albedo aiTextureType_DISPLACEMENT False),
      \<lparr>AlbedoMap = snd (LoadMaterialTexture example_ext ?m two_albedo aiTextureType_DIFFUSE True),
       NormalMap = snd (LoadMaterialTexture example_ext ?m two_albedo aiTextureType_NORMALS False),
       AmbientOcclusionMap =
         snd (LoadMaterialTexture example_ext ?m two_albedo aiTextureType_AMBIENT False),
       DisplacementMap =
         snd (LoadMaterialTexture example_ext ?m two_albedo aiTextureType_DISPLACEMENT False)\<rparr>)"
    using T [of aiTextureType_DIFFUSE True] by blast
  ultimately have 5: "m_Material (new_mesh (snd (projr ?R))) =
     \<lparr>AlbedoMap = Some 9, NormalMap = Some 9,
      AmbientOcclusionMap = None, DisplacementMap = None\<rparr>"
    by (simp add: 1 2 3 4)
  from 1 2 3 5 show ?thesis by simp
qed

subsection \<open>C3: failed load\<close>

text \<open>
  C3. When the importer returns a null scene, a scene whose flags have
  \<^verbatim>\<open>AI_SCENE_FLAGS_INCOMPLETE\<close> set, or a scene without root node, LoadModel logs the
  importer's error string and returns the model as it was; a new model so keeps no
  mesh, an empty directory and an empty name.
\<close>

theorem failed_load:
  assumes "ReadFile ext path = (scene_ptr, error_string)"
    and "scene_ptr = None \<or>
         (\<exists>scene. scene_ptr = Some scene \<and>
            (mFlags scene AND AI_SCENE_FLAGS_INCOMPLETE \<noteq> 0 \<or> mRootNode scene = None))"
  shows "LoadModel ext path m = Inr ([LogError (''failed to load model - '' @ error_string)], m) \<and>
         m_Meshes (snd (projr (LoadModel ext path (Model_new g)))) = [] \<and>
         m_Directory (snd (projr (LoadModel ext path (Model_new g)))) = [] \<and>
         m_Name (snd (projr (LoadModel ext path (Model_new g)))) = []"
proof -
  have "LoadModel ext path m' = Inr ([LogError (''failed to load model - '' @ error_string)], m')"
    for m'
    using assms by (auto simp: LoadModel_def)
  then show ?thesis by (simp add: Model_new_def)
qed

theorem failed_load_witness:
  "LoadModel example_ext ''hero.obj'' (Model_new []) =
     Inr ([LogError ''failed to load model - no such file''], Model_new []) \<and>
   LoadModel (example_ext\<lparr>ReadFile := (\<lambda>path. (Some (broken_scene 1 (Some (aiNode [] [0] []))),
                 ''truncated''))\<rparr>) ''hero.obj'' (Model_new []) =
     Inr ([LogError ''failed to load model - truncated''], Model_new []) \<and>
   LoadModel (example_ext\<lparr>ReadFile := (\<lambda>path. (Some (broken_scene 0 None), ''empty''))\<rparr>)
     ''hero.obj'' (Model_new []) =
     Inr ([LogError ''failed to load model - empty''], Model_new [])"
proof -
  let ?e1 = "example_ext\<lparr>ReadFile := (\<lambda>path. (Some (broken_scene 1 (Some (aiNode [] [0] []))),
                 ''truncated''))\<rparr>"
  let ?e2 = "example_ext\<lparr>ReadFile := (\<lambda>path. (Some (broken_scene 0 None), ''empty''))\<rparr>"
  have r0: "ReadFile example_ext ''hero.obj'' = (None, ''no such file'')"
    by (simp add: example_ext_def)
  have r1: "ReadFile ?e1 ''hero.obj'' = (Some (broken_scene 1 (Some (aiNode [] [0] []))), ''truncated'')"
    and r2: "ReadFile ?e2 ''hero.obj'' = (Some (broken_scene 0 None), ''empty'')"
    by simp_all
  have c1: "Some (broken_scene 1 (Some (aiNode [] [0] []))) = None \<or>
         (\<exists>scene. Some (broken_scene 1 (Some (aiNode [] [0] []))) = Some scene \<and>
            (mFlags scene AND AI_SCENE_FLAGS_INCOMPLETE \<noteq> 0 \<or> mRootNode scene = None))"
    by (simp add: broken_scene_def AI_SCENE_FLAGS_INCOMPLETE_def)
  have c2: "Some (broken_scene 0 None) = None \<or>
         (\<exists>scene. Some (broken_scene 0 None) = Some scene \<and>
            (mFlags scene AND AI_SCENE_FLAGS_INCOMPLETE \<noteq> 0 \<or> mRootNode scene = None))"
    by (simp add: broken_scene_def)
  from failed_load [OF r0, of "Model_new []" "[]"] failed_load [OF r1 c1, of "Model_new []" "[]"]
    failed_load [OF r2 c2, of "Model_new []" "[]"]
  show ?thesis by simp
qed

subsection \<open>C10: directory and name of the model\<close>

lemma find_last_of_from_found:
  "i < k \<Longrightarrow> s ! i \<in> set chars \<Longrightarrow> (\<forall>j. i < j \<and> j < k \<longrightarrow> s ! j \<notin> set chars) \<Longrightarrow>
   find_last_of_from s chars k = i"
proof (induction k)
  case 0
  then show ?case by simp
next
  case (Suc k)
  show ?case
  proof (cases "i = k")
    case True
    with Suc.prems show ?thesis by simp
  next
    case False
    with Suc.prems have "i < k" "s ! k \<notin> set chars" by auto
    with Suc show ?thesis by simp
  qed
qed

lemma find_last_of_from_none:
  "(\<forall>j<k. s ! j \<notin> set chars) \<Longrightarrow> find_last_of_from s chars k = npos"
  by (induction k) auto

lemma find_last_of_split:
  assumes "c \<in> set chars" "set r \<inter> set chars = {}"
  shows "find_last_of (d @ c # r) chars = length d"
  unfolding find_last_of_def
proof (rule find_last_of_from_found)
  show "length d < length (d @ c # r)" by simp
  show "(d @ c # r) ! length d \<in> set chars" using assms by simp
  show "\<forall>j. length d < j \<and> j < length (d @ c # r) \<longrightarrow> (d @ c # r) ! j \<notin> set chars"
  proof (intro allI impI)
    fix j assume j: "length d < j \<and> j < length (d @ c # r)"
    then have "(d @ c # r) ! j = r ! (j - Suc (length d))"
      by (simp add: nth_append nth_Cons')
    moreover from j have "j - Suc (length d) < length r" by auto
    ultimately show "(d @ c # r) ! j \<notin> set chars"
      using assms(2) by (metis disjoint_iff nth_mem)
  qed
qed

lemma find_last_of_absent:
  assumes "set s \<inter> set chars = {}"
  shows "find_last_of s chars = npos"
  unfolding find_last_of_def
  using assms by (intro find_last_of_from_none) (auto simp: disjoint_iff)

lemma ProcessMesh_frame:
  assumes "ProcessMesh ext mesh scene m = Inr (evs, m')"
  shows "m_Directory m' = m_Directory m \<and> m_Name m' = m_Name m"
proof -
  from assms obtain vs rootNode ev1 m2 bw mat where
    b: "process_bones ext (mNumVertices mesh) (mBones mesh)
       (m\<lparr>m_GlobalInverseTransform :=
            glm_inverse ext (ConvertAssimpMatrixToGLM ext (mTransformation rootNode))\<rparr>,
        boneWeights vs) = Inr (ev1, m2, bw)"
    and m': "m' = m2\<lparr>m_Meshes := m_Meshes m2 @
             [vs\<lparr>boneWeights := bw,
                 indices := process_faces (mFaces mesh) [],
                 m_Material := mat\<rparr>]\<rparr>"
    by (rule ProcessMesh_Inr)
  from process_bones_frame [OF b] show ?thesis by (simp add: m')
qed

lemma process_node_meshes_frame:
  "process_node_meshes ext ks scene m = Inr (evs, m') \<Longrightarrow>
   m_Directory m' = m_Directory m \<and> m_Name m' = m_Name m"
proof (induction ks arbitrary: m evs m')
  case Nil
  then show ?case by simp
next
  case (Cons k ks)
  from Cons.prems obtain mesh ev m1 evs1 where
    p: "ProcessMesh ext mesh scene m = Inr (ev, m1)"
    and r: "process_node_meshes ext ks scene m1 = Inr (evs1, m')"
    by (auto simp: and_then_eq_Inr)
  from ProcessMesh_frame [OF p] Cons.IH [OF r] show ?case by simp
qed

lemma ProcessNode_frame:
  "(\<forall>evs m'. ProcessNode ext node scene m = Inr (evs, m') \<longrightarrow>
      m_Directory m' = m_Directory m \<and> m_Name m' = m_Name m)"
  "(\<forall>evs m'. process_children ext nodes scene m = Inr (evs, m') \<longrightarrow>
      m_Directory m' = m_Directory m \<and> m_Name m' = m_Name m)"
proof (induction ext node scene m and ext nodes scene m
    rule: ProcessNode_process_children.induct)
  case (1 ext tr ms cs scene m)
  show ?case
  proof (intro allI impI)
    fix evs m' assume a: "ProcessNode ext (aiNode tr ms cs) scene m = Inr (evs, m')"
    then obtain ev m1 evs1 where
      p: "process_node_meshes ext ms scene m = Inr (ev, m1)"
      and c: "process_children ext cs scene m1 = Inr (evs1, m')"
      by (auto split: sum.splits)
    from 1 [OF p refl] c process_node_meshes_frame [OF p]
    show "m_Directory m' = m_Directory m \<and> m_Name m' = m_Name m"
      by simp
  qed
next
  case (2 ext scene m)
  then show ?case by simp
next
  case (3 ext c cs scene m)
  show ?case
  proof (intro allI impI)
    fix evs m' assume a: "process_children ext (c # cs) scene m = Inr (evs, m')"
    then obtain ev m1 evs1 where
      p: "ProcessNode ext c scene m = Inr (ev, m1)"
      and r: "process_children ext cs scene m1 = Inr (evs1, m')"
      by (auto split: sum.splits)
    from 3(1) p have "m_Directory m1 = m_Directory m \<and> m_Name m1 = m_Name m" by blast
    moreover from 3(2) [OF p refl] r
    have "m_Directory m' = m_Directory m1 \<and> m_Name m' = m_Name m1" by simp
    ultimately show "m_Directory m' = m_Directory m \<and> m_Name m' = m_Name m" by simp
  qed
qed


lemma LoadModel_loaded:
  assumes "ReadFile ext path = (Some scene, error_string)"
    and "mFlags scene AND AI_SCENE_FLAGS_INCOMPLETE = 0"
    and "mRootNode scene = Some rootNode"
    and "(find_last_of path [CHR ''/'', CHR 0x5C] + 1) mod 2 ^ 64 \<le> length path"
  shows "LoadModel ext path m =
    ProcessNode ext rootNode scene
      (m\<lparr>m_Directory := take (find_last_of path ''/'') path,
         m_Name := take npos (drop ((find_last_of path [CHR ''/'', CHR 0x5C] + 1) mod 2 ^ 64)
                     path)\<rparr>)"
  using assms by (simp add: LoadModel_def substr_def)

lemma take_npos: "length (s::string) < 2 ^ 64 \<Longrightarrow> take npos s = s"
  by (simp add: npos_def)

text \<open>
  C10. When the importer returns a complete scene with a root node and LoadModel
  returns, for a path shorter than \<open>2^64\<close> characters: the directory is the part of the
  path before its last slash, and the name is the part after its last slash or
  backslash. A path without slash gives the whole path as directory
  (\<^verbatim>\<open>substr(0, npos)\<close>), and a path with neither separator gives the whole path as name
  (\<^verbatim>\<open>npos + 1\<close> wraps to 0).
\<close>

theorem directory_and_name:
  assumes "ReadFile ext path = (Some scene, error_string)"
    and "mFlags scene AND AI_SCENE_FLAGS_INCOMPLETE = 0"
    and "mRootNode scene \<noteq> None"
    and "LoadModel ext path m = Inr (evs, m')"
    and "length path < 2 ^ 64"
  shows "(\<forall>d r. path = d @ ''/'' @ r \<and> CHR ''/'' \<notin> set r \<longrightarrow> m_Directory m' = d) \<and>
         (CHR ''/'' \<notin> set path \<longrightarrow> m_Directory m' = path) \<and>
         (\<forall>p c n. path = p @ [c] @ n \<and> c \<in> {CHR ''/'', CHR 0x5C} \<and>
              CHR ''/'' \<notin> set n \<and> CHR 0x5C \<notin> set n \<longrightarrow> m_Name m' = n) \<and>
         (CHR ''/'' \<notin> set path \<and> CHR 0x5C \<notin> set path \<longrightarrow> m_Name m' = path)"
proof -
  let ?seps = "[CHR ''/'', CHR 0x5C]"
  let ?start = "(find_last_of path ?seps + 1) mod 2 ^ 64"
  from assms(3) obtain rootNode where rn: "mRootNode scene = Some rootNode" by auto
  have start: "?start \<le> length path"
  proof (cases "set path \<inter> set ?seps = {}")
    case True
    then have "find_last_of path ?seps = npos" by (rule find_last_of_absent)
    then show ?thesis by (simp add: npos_def)
  next
    case False
    then obtain i where i: "i < length path" "path ! i \<in> set ?seps"
      by (auto simp: in_set_conv_nth)
    define k where "k = (GREATEST j. j < length path \<and> path ! j \<in> set ?seps)"
    have k: "k < length path \<and> path ! k \<in> set ?seps"
      unfolding k_def
      by (rule GreatestI_nat [where b = "length path"]) (use i in auto)
    have kmax: "\<forall>j. k < j \<and> j < length path \<longrightarrow> path ! j \<notin> set ?seps"
    proof (intro allI impI)
      fix j assume j: "k < j \<and> j < length path"
      show "path ! j \<notin> set ?seps"
      proof
        assume "path ! j \<in> set ?seps"
        with j have "j \<le> k" unfolding k_def
          by (intro Greatest_le_nat [where b = "length path"]) auto
        with j show False by simp
      qed
    qed
    have "find_last_of path ?seps = k"
      unfolding find_last_of_def using k kmax
      by (intro find_last_of_from_found) auto
    with k assms(5) show ?thesis by simp
  qed
  from LoadModel_loaded [OF assms(1,2) rn start, of m] assms(4)
  have "ProcessNode ext rootNode scene
      (m\<lparr>m_Directory := take (find_last_of path ''/'') path,
         m_Name := take npos (drop ?start path)\<rparr>) = Inr (evs, m')"
    by simp
  from ProcessNode_frame(1) [rule_format, OF this]
  have dir: "m_Directory m' = take (find_last_of path ''/'') path"
    and name: "m_Name m' = take npos (drop ?start path)"
    by simp_all
  show ?thesis
  proof (intro conjI allI impI)
    fix d r assume "path = d @ ''/'' @ r \<and> CHR ''/'' \<notin> set r"
    then have p: "path = d @ CHR ''/'' # r" and "set r \<inter> set ''/'' = {}" by auto
    then have "find_last_of path ''/'' = length d"
      by (simp add: find_last_of_split)
    then show "m_Directory m' = d" by (simp add: dir p)
  next
    assume "CHR ''/'' \<notin> set path"
    then have "find_last_of path ''/'' = npos"
      by (intro find_last_of_absent) auto
    then show "m_Directory m' = path" using assms(5) by (simp add: dir take_npos)
  next
    fix p c n
    assume a: "path = p @ [c] @ n \<and> c \<in> {CHR ''/'', CHR 0x5C} \<and>
      CHR ''/'' \<notin> set n \<and> CHR 0x5C \<notin> set n"
    then have p: "path = p @ c # n" and "c \<in> set ?seps" and "set n \<inter> set ?seps = {}"
      by auto
    then have f: "find_last_of path ?seps = length p"
      by (simp add: find_last_of_split)
    from p assms(5) have "length p + 1 < 2 ^ 64" by simp
    then have "?start = length p + 1" by (simp add: f)
    moreover from p assms(5) have "length n < 2 ^ 64" by simp
    ultimately show "m_Name m' = n" by (simp add: name p take_npos)
  next
    assume "CHR ''/'' \<notin> set path \<and> CHR 0x5C \<notin> set path"
    then have "find_last_of path ?seps = npos"
      by (intro find_last_of_absent) auto
    then have "?start = 0" by (simp add: npos_def)
    then show "m_Name m' = path" using assms(5) by (simp add: name take_npos)
  qed
qed


theorem directory_and_name_witness:
  "m_Directory (snd (projr (LoadModel quad_importer hero_path (Model_new [])))) = ''res'' \<and>
   m_Name (snd (projr (LoadModel quad_importer hero_path (Model_new [])))) = ''hero.obj''"
proof -
  let ?scene = "one_mesh_scene plain_quad no_textures"
  let ?L = "LoadModel quad_importer hero_path (Model_new [])"
  have r: "ReadFile quad_importer hero_path = (Some ?scene, [])"
    by (simp add: quad_importer_def)
  have f: "mFlags ?scene AND AI_SCENE_FLAGS_INCOMPLETE = 0"
    and n: "mRootNode ?scene \<noteq> None" and n': "mRootNode ?scene = Some (aiNode [] [0] [])"
    by (simp_all add: one_mesh_scene_def)
  have len: "length hero_path < 2 ^ 64"
    by (simp add: hero_path_def)
  have seps: "find_last_of hero_path [CHR ''/'', CHR 0x5C] = 10"
    unfolding hero_path_def by (subst find_last_of_split) simp_all
  have "find_last_of (''res'' @ CHR ''/'' # (''models'' @ CHR 0x5C # ''hero.obj'')) ''/'' =
      length ''res''"
    by (rule find_last_of_split) simp_all
  then have slash: "find_last_of hero_path ''/'' = 3"
    by (simp add: hero_path_def)
  have "?L = ProcessNode quad_importer (aiNode [] [0] []) ?scene
      ((Model_new [])\<lparr>m_Directory := take (find_last_of hero_path ''/'') hero_path,
         m_Name := take npos (drop ((find_last_of hero_path [CHR ''/'', CHR 0x5C] + 1) mod 2 ^ 64)
                     hero_path)\<rparr>)"
    by (rule LoadModel_loaded [OF r f n']) (simp add: seps, simp add: hero_path_def)
  also have "\<dots> = ProcessNode quad_importer (aiNode [] [0] []) ?scene
      ((Model_new [])\<lparr>m_Directory := ''res'', m_Name := ''hero.obj''\<rparr>)"
    by (simp add: seps slash) (simp add: hero_path_def npos_def)
  finally have "?L = ProcessNode quad_importer (aiNode [] [0] []) ?scene
      ((Model_new [])\<lparr>m_Directory := ''res'', m_Name := ''hero.obj''\<rparr>)" .
  moreover have "\<not> isl (ProcessNode quad_importer (aiNode [] [0] []) ?scene
      ((Model_new [])\<lparr>m_Directory := ''res'', m_Name := ''hero.obj''\<rparr>))"
    by code_simp
  ultimately have "\<not> isl ?L" by simp
  then have l: "?L = Inr (fst (projr ?L), snd (projr ?L))" by (rule Inr_projr)
  have s1: "hero_path = ''res'' @ ''/'' @ (''models'' @ CHR 0x5C # ''hero.obj'') \<and>
      CHR ''/'' \<notin> set (''models'' @ CHR 0x5C # ''hero.obj'')"
    by (simp add: hero_path_def)
  have s2: "hero_path = ''res/models'' @ [CHR 0x5C] @ ''hero.obj'' \<and>
      CHR 0x5C \<in> {CHR ''/'', CHR 0x5C} \<and>
      CHR ''/'' \<notin> set ''hero.obj'' \<and> CHR 0x5C \<notin> set ''hero.obj''"
    by (simp add: hero_path_def)
  from directory_and_name [OF r f n l len] s1 s2 show ?thesis by blast
qed

subsection \<open>C7: bone ids of a vertex\<close>

lemma distinct_occupied_update:
  "b \<notin> set xs \<Longrightarrow> distinct (filter P xs) \<Longrightarrow> distinct (filter P (xs[k := b]))"
proof (induction xs arbitrary: k)
  case Nil
  then show ?case by simp
next
  case (Cons x xs)
  show ?case
  proof (cases k)
    case 0
    with Cons.prems show ?thesis by (auto split: if_splits)
  next
    case (Suc k')
    have "set (xs[k' := b]) \<subseteq> insert b (set xs)" by (rule set_update_subset_insert)
    with Cons Suc show ?thesis by (auto split: if_splits)
  qed
qed

lemma first_unused_exists:
  assumes "\<not> slots_full M v"
  shows "\<exists>i. first_unused M v i"
proof -
  from assms obtain j where j: "j < M" "BoneIDs v ! j = -1"
    by (auto simp: slots_full_def)
  define i where "i = (LEAST j. BoneIDs v ! j = -1)"
  have 1: "BoneIDs v ! i = -1" unfolding i_def using j(2) by (rule LeastI)
  have 2: "i \<le> j" unfolding i_def using j(2) by (rule Least_le)
  have 3: "\<forall>k<i. BoneIDs v ! k \<noteq> -1"
    unfolding i_def using not_less_Least by blast
  from 2 j(1) have "i < M" by simp
  with 1 3 have "first_unused M v i" by (simp add: first_unused_def)
  then show ?thesis ..
qed

lemma assign_slots_cases:
  "snd (AssignBoneInfluence M vid b w v) = v \<or>
   (\<exists>k<M. snd (AssignBoneInfluence M vid b w v) = set_slot v k b w)"
proof (cases "slots_full M v")
  case True
  from assign_result_cases [OF True, of vid b w] show ?thesis by auto
next
  case False
  then obtain i where i: "first_unused M v i" using first_unused_exists by blast
  then have "i < M" by (simp add: first_unused_def)
  with assign_first_unused [OF i, of vid b w] show ?thesis by auto
qed

lemma assign_keeps_no_shared:
  assumes "no_shared_bone v" and "b \<notin> set (BoneIDs v)"
  shows "no_shared_bone (snd (AssignBoneInfluence M vid b w v)) \<and>
         length (BoneIDs (snd (AssignBoneInfluence M vid b w v))) = length (BoneIDs v) \<and>
         set (BoneIDs (snd (AssignBoneInfluence M vid b w v))) \<subseteq> insert b (set (BoneIDs v))"
  using assign_slots_cases [of M vid b w v]
proof
  assume "snd (AssignBoneInfluence M vid b w v) = v"
  with assms show ?thesis by auto
next
  assume "\<exists>k<M. snd (AssignBoneInfluence M vid b w v) = set_slot v k b w"
  then obtain k where k: "snd (AssignBoneInfluence M vid b w v) = set_slot v k b w" by blast
  have "set ((BoneIDs v)[k := b]) \<subseteq> insert b (set (BoneIDs v))"
    by (rule set_update_subset_insert)
  with assms distinct_occupied_update [OF assms(2), of "\<lambda>b. b \<noteq> -1" k]
  show ?thesis unfolding k by (simp add: set_slot_def no_shared_bone_def)
qed

lemma process_weights_keeps:
  "process_weights M n b ws bw = Inr (evs, bw') \<Longrightarrow>
   distinct (map mVertexId ws) \<Longrightarrow>
   (\<forall>j<length bw. no_shared_bone (bw ! j)) \<Longrightarrow>
   (\<forall>wt\<in>set ws. b \<notin> set (BoneIDs (bw ! mVertexId wt))) \<Longrightarrow>
   length bw' = length bw \<and>
   (\<forall>j<length bw. no_shared_bone (bw' ! j) \<and>
      set (BoneIDs (bw' ! j)) \<subseteq> insert b (set (BoneIDs (bw ! j))))"
proof (induction ws arbitrary: bw evs bw')
  case Nil
  then show ?case by auto
next
  case (Cons wt ws)
  let ?vid = "mVertexId wt"
  let ?v' = "snd (AssignBoneInfluence M ?vid b (mWeight wt) (bw ! ?vid))"
  let ?bw1 = "bw[?vid := ?v']"
  from Cons.prems(1) obtain evs1 where
    vid: "?vid < length bw"
    and r: "process_weights M n b ws ?bw1 = Inr (evs1, bw')"
    by (auto simp: Let_def and_then_eq_Inr case_prod_beta split: if_splits)
  from Cons.prems(3) vid have ns: "no_shared_bone (bw ! ?vid)" by simp
  from Cons.prems(4) have nb: "b \<notin> set (BoneIDs (bw ! ?vid))" by simp
  note A = assign_keeps_no_shared [OF ns nb, of M ?vid "mWeight wt"]
  have d: "distinct (map mVertexId ws)" using Cons.prems(2) by simp
  have i1: "\<forall>j<length ?bw1. no_shared_bone (?bw1 ! j)"
    using Cons.prems(3) A vid by (auto simp: nth_list_update)
  have i2: "\<forall>wt'\<in>set ws. b \<notin> set (BoneIDs (?bw1 ! mVertexId wt'))"
  proof
    fix wt' assume w: "wt' \<in> set ws"
    with Cons.prems(2) have "mVertexId wt' \<noteq> ?vid" by (auto simp: image_iff)
    with Cons.prems(4) w show "b \<notin> set (BoneIDs (?bw1 ! mVertexId wt'))" by simp
  qed
  note IH = Cons.IH [OF r d i1 i2]
  show ?case
  proof (intro conjI allI impI)
    show "length bw' = length bw" using IH by simp
  next
    fix j assume j: "j < length bw"
    show "no_shared_bone (bw' ! j)" using IH j by simp
    have "set (BoneIDs (bw' ! j)) \<subseteq> insert b (set (BoneIDs (?bw1 ! j)))"
      using IH j by simp
    moreover have "set (BoneIDs (?bw1 ! j)) \<subseteq> insert b (set (BoneIDs (bw ! j)))"
      using A vid by (cases "j = ?vid") auto
    ultimately show "set (BoneIDs (bw' ! j)) \<subseteq> insert b (set (BoneIDs (bw ! j)))"
      by blast
  qed
qed

lemma RegisterBone_registry_ok:
  assumes "registry_ok m"
  shows "registry_ok (snd (RegisterBone ext bone m))"
proof (cases "m_BoneDataMap m (C_Str (mName bone))")
  case None
  with assms show ?thesis
    unfolding registry_ok_def RegisterBone_new [OF None]
    by (auto split: if_splits) fastforce+
next
  case (Some d)
  with assms show ?thesis by (simp add: RegisterBone_known [OF Some])
qed


lemma process_weights_in_range:
  "process_weights M n b ws bw = Inr (evs, bw') \<Longrightarrow> \<forall>wt\<in>set ws. mVertexId wt < length bw"
proof (induction ws arbitrary: bw evs)
  case Nil
  then show ?case by simp
next
  case (Cons wt ws)
  from Cons.prems obtain evs1 where
    vid: "mVertexId wt < length bw"
    and r: "process_weights M n b ws
      (bw[mVertexId wt :=
        snd (AssignBoneInfluence M (mVertexId wt) b (mWeight wt) (bw ! mVertexId wt))]) =
      Inr (evs1, bw')"
    by (auto simp: Let_def and_then_eq_Inr case_prod_beta split: if_splits)
  from Cons.IH [OF r] vid show ?case by simp
qed

lemma process_bones_keeps:
  "process_bones ext n bones (m, bw) = Inr (evs, m', bw') \<Longrightarrow>
   registry_ok m \<Longrightarrow>
   distinct (map (\<lambda>bone. C_Str (mName bone)) bones) \<Longrightarrow>
   (\<forall>bone\<in>set bones. distinct (map mVertexId (mWeights bone))) \<Longrightarrow>
   (\<forall>j<length bw. no_shared_bone (bw ! j)) \<Longrightarrow>
   (\<forall>j<length bw. \<forall>x\<in>set (BoneIDs (bw ! j)). x \<noteq> -1 \<longrightarrow>
      (\<exists>name d. name \<in> S \<and> m_BoneDataMap m name = Some d \<and> boneID d = x)) \<Longrightarrow>
   S \<inter> (\<lambda>bone. C_Str (mName bone)) ` set bones = {} \<Longrightarrow>
   registry_ok m' \<and> length bw' = length bw \<and> (\<forall>j<length bw. no_shared_bone (bw' ! j))"
proof (induction bones arbitrary: m bw S evs)
  case Nil
  then show ?case by simp
next
  case (Cons bone bones)
  let ?name = "C_Str (mName bone)"
  obtain b m1 where reg: "RegisterBone ext bone m = (b, m1)"
    by (cases "RegisterBone ext bone m") auto
  from Cons.prems(1) reg obtain ev bw1 evs1 where
    b1: "b \<noteq> -1"
    and w: "process_weights (MaxBonesPerVertex ext) n b (mWeights bone) bw = Inr (ev, bw1)"
    and p: "process_bones ext n bones (m1, bw1) = Inr (evs1, m', bw')"
    by (auto simp: and_then_eq_Inr split: if_splits prod.splits)
  from RegisterBone_registry_ok [OF Cons.prems(2), of ext bone] reg
  have ok1: "registry_ok m1" by simp
  from RegisterBone_stored [of ext bone m] reg obtain d where
    d: "m_BoneDataMap m1 ?name = Some d" "boneID d = b" by auto
  have keep: "m_BoneDataMap m name = Some d' \<Longrightarrow> m_BoneDataMap m1 name = Some d'" for name d'
    using RegisterBone_keeps [of m name d' ext bone] reg by simp
  have notS: "?name \<notin> S" using Cons.prems(7) by auto
  have fresh: "b \<notin> set (BoneIDs (bw ! j))" if j: "j < length bw" for j
  proof
    assume "b \<in> set (BoneIDs (bw ! j))"
    with Cons.prems(6) j b1 obtain name d' where
      n: "name \<in> S" "m_BoneDataMap m name = Some d'" "boneID d' = b" by blast
    from keep [OF n(2)] d n(3) ok1 have "name = ?name"
      unfolding registry_ok_def by blast
    with n(1) notS show False by simp
  qed
  from process_weights_in_range [OF w] fresh
  have f: "\<forall>wt\<in>set (mWeights bone). b \<notin> set (BoneIDs (bw ! mVertexId wt))" by blast
  from Cons.prems(4) have dv: "distinct (map mVertexId (mWeights bone))" by simp
  note W = process_weights_keeps [OF w dv Cons.prems(5) f]
  have len1: "length bw1 = length bw" using W by simp
  have ns1: "\<forall>j<length bw1. no_shared_bone (bw1 ! j)" using W by simp
  have seen1: "\<forall>j<length bw1. \<forall>x\<in>set (BoneIDs (bw1 ! j)). x \<noteq> -1 \<longrightarrow>
      (\<exists>name d. name \<in> insert ?name S \<and> m_BoneDataMap m1 name = Some d \<and> boneID d = x)"
  proof (intro allI impI ballI)
    fix j x assume j: "j < length bw1" and x: "x \<in> set (BoneIDs (bw1 ! j))" and x1: "x \<noteq> -1"
    from W j len1 x have "x = b \<or> x \<in> set (BoneIDs (bw ! j))" by auto
    then show "\<exists>name d. name \<in> insert ?name S \<and> m_BoneDataMap m1 name = Some d \<and> boneID d = x"
    proof
      assume "x = b"
      with d show ?thesis by blast
    next
      assume "x \<in> set (BoneIDs (bw ! j))"
      with Cons.prems(6) j len1 x1 obtain name d' where
        "name \<in> S" "m_BoneDataMap m name = Some d'" "boneID d' = x" by metis
      with keep show ?thesis by blast
    qed
  qed
  have dn: "distinct (map (\<lambda>bone. C_Str (mName bone)) bones)"
    and nn: "?name \<notin> (\<lambda>bone. C_Str (mName bone)) ` set bones"
    using Cons.prems(3) by auto
  have dvs: "\<forall>bone\<in>set bones. distinct (map mVertexId (mWeights bone))"
    using Cons.prems(4) by simp
  have fresh1: "insert ?name S \<inter> (\<lambda>bone. C_Str (mName bone)) ` set bones = {}"
    using Cons.prems(7) nn by auto
  from Cons.IH [OF p ok1 dn dvs ns1 seen1 fresh1] len1
  show ?case by simp
qed

lemma registry_ok_new: "registry_ok (Model_new g)"
  by (simp add: registry_ok_def Model_new_def)

lemma cleared_no_shared: "no_shared_bone (cleared_slots M)"
  by (simp add: no_shared_bone_def cleared_slots_def)

lemma ProcessMesh_bones_start:
  assumes "process_vertices M mesh 0 (initial_vectors M mesh) = Inr vs"
  shows "\<forall>j<length (boneWeights vs). boneWeights vs ! j = cleared_slots M"
proof (cases "length (mBones mesh) > 0")
  case True
  from process_vertices_result [OF assms] True
  show ?thesis by (simp add: initial_vectors_def)
next
  case False
  from process_vertices_result [OF assms] False
  show ?thesis by (simp add: initial_vectors_def)
qed

lemma ProcessMesh_no_shared:
  assumes "ProcessMesh ext mesh scene m = Inr (evs, m')"
    and "registry_ok m"
    and "distinct (map (\<lambda>bone. C_Str (mName bone)) (mBones mesh))"
    and "\<forall>bone\<in>set (mBones mesh). distinct (map mVertexId (mWeights bone))"
  shows "(\<forall>v\<in>set (boneWeights (new_mesh m')). no_shared_bone v) \<and> registry_ok m'"
proof -
  from assms(1) obtain vs rootNode ev1 m2 bw mat where
    v: "process_vertices (MaxBonesPerVertex ext) mesh 0
       (initial_vectors (MaxBonesPerVertex ext) mesh) = Inr vs"
    and b: "process_bones ext (mNumVertices mesh) (mBones mesh)
       (m\<lparr>m_GlobalInverseTransform :=
            glm_inverse ext (ConvertAssimpMatrixToGLM ext (mTransformation rootNode))\<rparr>,
        boneWeights vs) = Inr (ev1, m2, bw)"
    and m': "m' = m2\<lparr>m_Meshes := m_Meshes m2 @
             [vs\<lparr>boneWeights := bw,
                 indices := process_faces (mFaces mesh) [],
                 m_Material := mat\<rparr>]\<rparr>"
    by (rule ProcessMesh_Inr)
  let ?m1 = "m\<lparr>m_GlobalInverseTransform :=
            glm_inverse ext (ConvertAssimpMatrixToGLM ext (mTransformation rootNode))\<rparr>"
  note start = ProcessMesh_bones_start [OF v]
  have ok: "registry_ok ?m1" using assms(2) by (simp add: registry_ok_def)
  have ns: "\<forall>j<length (boneWeights vs). no_shared_bone (boneWeights vs ! j)"
    using start cleared_no_shared by simp
  have seen: "\<forall>j<length (boneWeights vs). \<forall>x\<in>set (BoneIDs (boneWeights vs ! j)). x \<noteq> -1 \<longrightarrow>
      (\<exists>name d. name \<in> {} \<and> m_BoneDataMap ?m1 name = Some d \<and> boneID d = x)"
    using start by (simp add: cleared_slots_def)
  from process_bones_keeps [OF b ok assms(3,4) ns seen]
  have r: "registry_ok m2" "length bw = length (boneWeights vs)"
    "\<forall>j<length (boneWeights vs). no_shared_bone (bw ! j)"
    by simp_all
  have "\<forall>v\<in>set bw. no_shared_bone v"
    using r(2,3) by (auto simp: in_set_conv_nth)
  moreover have "registry_ok m'" using r(1) by (simp add: m' registry_ok_def)
  ultimately show ?thesis by (simp add: new_mesh_def m')
qed


lemma process_weights_append:
  "process_weights M n b (xs @ ys) bw =
     and_then (process_weights M n b xs bw) (\<lambda>(ev, bw1).
     and_then (process_weights M n b ys bw1) (\<lambda>(evs, bw2). Inr (ev @ evs, bw2)))"
proof (induction xs arbitrary: bw)
  case Nil
  show ?case by (cases "process_weights M n b ys bw") auto
next
  case (Cons wt xs)
  show ?case
    by (simp add: Let_def Cons.IH case_prod_beta and_then_def split: sum.splits)
qed

lemma process_bones_append:
  "process_bones ext n (xs @ ys) s =
     and_then (process_bones ext n xs s) (\<lambda>(ev, s1).
     and_then (process_bones ext n ys s1) (\<lambda>(evs, r). Inr (ev @ evs, r)))"
proof (induction xs arbitrary: s)
  case Nil
  show ?case by (cases s; cases "process_bones ext n ys s") auto
next
  case (Cons bone xs)
  show ?case
    by (cases s)
       (simp add: Cons.IH case_prod_beta and_then_def split: sum.splits)
qed

lemma RegisterBone_weights:
  "RegisterBone ext (bone\<lparr>mWeights := ws\<rparr>) m = RegisterBone ext bone m"
  by (simp add: RegisterBone_def Let_def split: option.splits)

lemma process_bones_upto:
  assumes "process_bones ext n bones s = Inr r"
    and "k < length bones"
  shows "\<exists>r'. process_bones ext n
           (take k bones @ [(bones ! k)\<lparr>mWeights := take j (mWeights (bones ! k))\<rparr>]) s = Inr r'"
proof -
  let ?bone = "bones ! k"
  let ?ws = "mWeights ?bone"
  have "bones = take k bones @ ?bone # drop (Suc k) bones"
    using assms(2) by (rule id_take_nth_drop)
  with assms(1) have "process_bones ext n (take k bones @ ?bone # drop (Suc k) bones) s = Inr r"
    by simp
  then obtain ev mk bwk r1 where
    a: "process_bones ext n (take k bones) s = Inr (ev, mk, bwk)"
    and b: "process_bones ext n (?bone # drop (Suc k) bones) (mk, bwk) = Inr r1"
    unfolding process_bones_append
    by (auto simp: and_then_eq_Inr case_prod_beta simp del: process_bones.simps)
  obtain bid m1 where reg: "RegisterBone ext ?bone mk = (bid, m1)"
    by (cases "RegisterBone ext ?bone mk") auto
  from b reg obtain r2 where
    b1: "bid \<noteq> -1"
    and w: "process_weights (MaxBonesPerVertex ext) n bid ?ws bwk = Inr r2"
    by (auto simp: and_then_eq_Inr split: if_splits)
  have "?ws = take j ?ws @ drop j ?ws" by simp
  with w have "process_weights (MaxBonesPerVertex ext) n bid (take j ?ws @ drop j ?ws) bwk = Inr r2"
    by simp
  then obtain r3 where
    w3: "process_weights (MaxBonesPerVertex ext) n bid (take j ?ws) bwk = Inr r3"
    unfolding process_weights_append by (auto simp: and_then_eq_Inr)
  have "\<exists>r4. process_bones ext n [?bone\<lparr>mWeights := take j ?ws\<rparr>] (mk, bwk) = Inr r4"
    using reg b1 w3 by (simp add: RegisterBone_weights case_prod_beta)
  with a show ?thesis
    unfolding process_bones_append by (auto simp: case_prod_beta simp del: process_bones.simps)
qed

lemma vertex_step_bones:
  "(length bones > 0) = (length (mBones mesh) > 0) \<Longrightarrow>
   vertex_step M (mesh\<lparr>mBones := bones\<rparr>) i acc = vertex_step M mesh i acc"
  by (simp add: vertex_step_def)

lemma process_vertices_bones:
  "(length bones > 0) = (length (mBones mesh) > 0) \<Longrightarrow>
   process_vertices M (mesh\<lparr>mBones := bones\<rparr>) i acc = process_vertices M mesh i acc"
proof (induction "mNumVertices mesh - i" arbitrary: i acc)
  case 0
  then show ?case
    by (simp add: process_vertices.simps [of M _ i acc])
next
  case (Suc d)
  then have lt: "i < mNumVertices mesh" and d: "d = mNumVertices mesh - Suc i" by simp_all
  have "process_vertices M (mesh\<lparr>mBones := bones\<rparr>) (Suc i) acc' =
      process_vertices M mesh (Suc i) acc'" for acc'
    using Suc.hyps(1) [OF d Suc.prems] .
  then have "process_vertices M (mesh\<lparr>mBones := bones\<rparr>) (Suc i) =
      process_vertices M mesh (Suc i)" by (rule ext)
  with lt Suc.prems show ?case
    by (simp add: process_vertices.simps [of M _ i acc] vertex_step_bones)
qed

lemma ProcessMesh_upto:
  assumes "ProcessMesh ext mesh scene m = Inr (evs, m')"
    and "k < length (mBones mesh)"
  shows "\<exists>evs_k m_k. ProcessMesh ext (influences_upto mesh k j) scene m = Inr (evs_k, m_k)"
proof -
  from assms(1) obtain vs rootNode ev1 m2 bw where
    v: "process_vertices (MaxBonesPerVertex ext) mesh 0
       (initial_vectors (MaxBonesPerVertex ext) mesh) = Inr vs"
    and n: "mRootNode scene = Some rootNode"
    and b: "process_bones ext (mNumVertices mesh) (mBones mesh)
       (m\<lparr>m_GlobalInverseTransform :=
            glm_inverse ext (ConvertAssimpMatrixToGLM ext (mTransformation rootNode))\<rparr>,
        boneWeights vs) = Inr (ev1, m2, bw)"
    and i: "mMaterialIndex mesh < length (mMaterials scene)"
    by (rule ProcessMesh_Inr)
  let ?bones = "take k (mBones mesh) @
      [(mBones mesh ! k)\<lparr>mWeights := take j (mWeights (mBones mesh ! k))\<rparr>]"
  from assms(2) have ne: "mBones mesh \<noteq> []" by auto
  have pos: "(length ?bones > 0) = (length (mBones mesh) > 0)"
    using ne by simp
  have iv: "initial_vectors (MaxBonesPerVertex ext) (mesh\<lparr>mBones := ?bones\<rparr>) =
      initial_vectors (MaxBonesPerVertex ext) mesh"
    using ne by (simp add: initial_vectors_def)
  have v': "process_vertices (MaxBonesPerVertex ext) (mesh\<lparr>mBones := ?bones\<rparr>) 0
       (initial_vectors (MaxBonesPerVertex ext) (mesh\<lparr>mBones := ?bones\<rparr>)) = Inr vs"
    unfolding iv process_vertices_bones [OF pos] by (rule v)
  from process_bones_upto [OF b assms(2), of j] obtain r' where
    b': "process_bones ext (mNumVertices mesh) ?bones
       (m\<lparr>m_GlobalInverseTransform :=
            glm_inverse ext (ConvertAssimpMatrixToGLM ext (mTransformation rootNode))\<rparr>,
        boneWeights vs) = Inr r'" by blast
  show ?thesis
    unfolding influences_upto_def ProcessMesh_def
    using v' n b' i by (simp add: read_at_def case_prod_beta)
qed


text \<open>
  C7, as the code has it. Let the bones of the mesh have different names and let no
  bone list a vertex twice, on a model whose bone map is consistent (as that of a new
  model is, and as ProcessMesh leaves it). When ProcessMesh returns, no vertex of the
  new mesh has two occupied slots with the same bone id; the same holds at every point
  of the loop over the bones: cut after any number of weights of any bone, the run
  returns as well and its slots have the property. The claim as written promises this
  for every mesh.
\<close>

theorem no_shared_bone_ids:
  assumes "ProcessMesh ext mesh scene m = Inr (evs, m')"
    and "registry_ok m"
    and "distinct (map (\<lambda>bone. C_Str (mName bone)) (mBones mesh))"
    and "\<forall>bone\<in>set (mBones mesh). distinct (map mVertexId (mWeights bone))"
  shows "(\<forall>v\<in>set (boneWeights (new_mesh m')). no_shared_bone v) \<and>
         (\<forall>k j. k < length (mBones mesh) \<longrightarrow>
            (\<exists>evs_k m_k.
               ProcessMesh ext (influences_upto mesh k j) scene m = Inr (evs_k, m_k) \<and>
               (\<forall>v\<in>set (boneWeights (new_mesh m_k)). no_shared_bone v))) \<and>
         registry_ok m'"
proof (intro conjI allI impI)
  from ProcessMesh_no_shared [OF assms]
  show "\<forall>v\<in>set (boneWeights (new_mesh m')). no_shared_bone v" and "registry_ok m'"
    by simp_all
next
  fix k j assume k: "k < length (mBones mesh)"
  let ?bones = "mBones mesh"
  let ?cut = "(?bones ! k)\<lparr>mWeights := take j (mWeights (?bones ! k))\<rparr>"
  from ProcessMesh_upto [OF assms(1) k, of j] obtain evs_k m_k where
    run: "ProcessMesh ext (influences_upto mesh k j) scene m = Inr (evs_k, m_k)" by blast
  have bones: "mBones (influences_upto mesh k j) = take k ?bones @ [?cut]"
    by (simp add: influences_upto_def)
  have "map (\<lambda>bone. C_Str (mName bone)) (take k ?bones @ [?cut]) =
      take (Suc k) (map (\<lambda>bone. C_Str (mName bone)) ?bones)"
    using k by (simp add: take_Suc_conv_app_nth take_map)
  with assms(3) have dn: "distinct (map (\<lambda>bone. C_Str (mName bone))
      (mBones (influences_upto mesh k j)))"
    unfolding bones by (simp only: distinct_take)
  have dv: "\<forall>bone\<in>set (mBones (influences_upto mesh k j)).
      distinct (map mVertexId (mWeights bone))"
    unfolding bones
  proof
    fix bone assume "bone \<in> set (take k ?bones @ [?cut])"
    then have "bone \<in> set ?bones \<or> bone = ?cut" by (auto dest: in_set_takeD)
    then show "distinct (map mVertexId (mWeights bone))"
    proof
      assume "bone \<in> set ?bones"
      with assms(4) show ?thesis by simp
    next
      assume c: "bone = ?cut"
      from assms(4) k have "distinct (map mVertexId (mWeights (?bones ! k)))" by simp
      then have "distinct (take j (map mVertexId (mWeights (?bones ! k))))"
        by (rule distinct_take)
      then show ?thesis by (simp add: c take_map)
    qed
  qed
  from ProcessMesh_no_shared [OF run assms(2) dn dv] run
  show "\<exists>evs_k m_k.
      ProcessMesh ext (influences_upto mesh k j) scene m = Inr (evs_k, m_k) \<and>
      (\<forall>v\<in>set (boneWeights (new_mesh m_k)). no_shared_bone v)"
    by blast
qed

theorem no_shared_bone_ids_witness:
  "BoneIDs (boneWeights (new_mesh (snd (projr (load_quad skinned_quad)))) ! 0) = [0, 1, -1, -1] \<and>
   no_shared_bone (boneWeights (new_mesh (snd (projr (load_quad skinned_quad)))) ! 0) \<and>
   \<not> isl (ProcessMesh example_ext (influences_upto skinned_quad 1 1)
            (one_mesh_scene skinned_quad no_textures) (Model_new []))"
proof -
  let ?scene = "one_mesh_scene skinned_quad no_textures"
  have "\<not> isl (load_quad skinned_quad)" by code_simp
  then have run: "ProcessMesh example_ext skinned_quad ?scene (Model_new []) =
      Inr (fst (projr (load_quad skinned_quad)), snd (projr (load_quad skinned_quad)))"
    unfolding load_quad_def by (rule Inr_projr)
  have reg: "registry_ok (Model_new [])"
    by (simp add: registry_ok_def Model_new_def)
  have dn: "distinct (map (\<lambda>bone. C_Str (mName bone)) (mBones skinned_quad))"
    by (simp add: skinned_quad_def quad_mesh_def two_bones_def C_Str_def)
  have dv: "\<forall>bone\<in>set (mBones skinned_quad). distinct (map mVertexId (mWeights bone))"
    by (simp add: skinned_quad_def quad_mesh_def two_bones_def)
  note T = no_shared_bone_ids [OF run reg dn dv]
  have ids: "BoneIDs (boneWeights (new_mesh (snd (projr (load_quad skinned_quad)))) ! 0) =
      [0, 1, -1, -1]"
    by code_simp
  have "length (boneWeights (new_mesh (snd (projr (load_quad skinned_quad))))) = 4"
    by code_simp
  then have "boneWeights (new_mesh (snd (projr (load_quad skinned_quad)))) ! 0 \<in>
      set (boneWeights (new_mesh (snd (projr (load_quad skinned_quad)))))"
    by simp
  with T have 1: "no_shared_bone (boneWeights (new_mesh (snd (projr (load_quad skinned_quad)))) ! 0)"
    by blast
  have "1 < length (mBones skinned_quad)"
    by (simp add: skinned_quad_def quad_mesh_def two_bones_def)
  with T have "\<exists>evs_k m_k.
      ProcessMesh example_ext (influences_upto skinned_quad 1 1) ?scene (Model_new []) =
        Inr (evs_k, m_k)"
    by blast
  then have 2: "\<not> isl (ProcessMesh example_ext (influences_upto skinned_quad 1 1) ?scene
      (Model_new []))"
    by auto
  from ids 1 2 show ?thesis by simp
qed

text \<open>
  C7 as written fails: a bone that lists vertex 0 twice fills two slots of that vertex
  with its id, and so do two bones of the same name that both list vertex 0.
\<close>

theorem no_shared_bone_ids_counterexample:
  "\<not> isl (load_quad twice_quad) \<and>
   BoneIDs (boneWeights (new_mesh (snd (projr (load_quad twice_quad)))) ! 0) = [0, 0, -1, -1] \<and>
   \<not> no_shared_bone (boneWeights (new_mesh (snd (projr (load_quad twice_quad)))) ! 0) \<and>
   \<not> isl (load_quad same_name_quad) \<and>
   BoneIDs (boneWeights (new_mesh (snd (projr (load_quad same_name_quad)))) ! 0) =
     [0, 0, -1, -1] \<and>
   \<not> no_shared_bone (boneWeights (new_mesh (snd (projr (load_quad same_name_quad)))) ! 0)"
  by code_simp

end
